theory Spec2Isabelle
  imports Complex_Main
begin

section \<open>Data model\<close>

text \<open>
  The simulation core of the arena game is the frame callback of \<open>GameLoop\<close> together
  with \<open>initGame\<close>. JavaScript numbers are modelled as mathematical reals: every
  statement below is about the arithmetic the code writes down, not about IEEE rounding.
\<close>

datatype GameState = START | PLAYING | GAME_OVER | VICTORY

datatype RobotType = spinner | wedge | tank

record Vector3 =
  x :: real
  y :: real
  z :: real

record RobotData =
  robot_id :: string
  isPlayer :: bool
  position :: Vector3
  velocity :: Vector3
  rotation :: real
  health :: real
  maxHealth :: real
  weaponActive :: bool
  isDead :: bool
  color :: string
  rtype :: RobotType
  stunnedUntil :: real

subsection \<open>Tuning constants\<close>

definition ARENA_SIZE :: real where "ARENA_SIZE = 22"
definition WALL_GAP :: real where "WALL_GAP = 5"
definition ROBOT_RADIUS :: real where "ROBOT_RADIUS = 0.8"
definition MAX_ROBOT_HEALTH :: real where "MAX_ROBOT_HEALTH = 100"
definition MOVE_SPEED :: real where "MOVE_SPEED = 0.008"
definition ENEMY_SPEED_MULT :: real where "ENEMY_SPEED_MULT = 0.4"
definition TURN_SPEED :: real where "TURN_SPEED = 0.08"
definition FRICTION :: real where "FRICTION = 0.92"
definition KNOCKBACK_FORCE :: real where "KNOCKBACK_FORCE = 0.15"
definition WEAPON_DAMAGE :: real where "WEAPON_DAMAGE = 15"
definition ENEMY_COUNT :: nat where "ENEMY_COUNT = 3"

subsection \<open>The vector operations the loop uses\<close>

text \<open>
  The vectors are those of the three.js library. \<open>normalize\<close> there divides by
  \<open>length() || 1\<close>, so the zero vector is left as it is; the model writes that case out
  instead of relying on division by zero in HOL.
\<close>

definition vec :: "real \<Rightarrow> real \<Rightarrow> real \<Rightarrow> Vector3" where
  "vec a b c = \<lparr>x = a, y = b, z = c\<rparr>"

definition add_v :: "Vector3 \<Rightarrow> Vector3 \<Rightarrow> Vector3" where
  "add_v u w = vec (x u + x w) (y u + y w) (z u + z w)"

definition sub_v :: "Vector3 \<Rightarrow> Vector3 \<Rightarrow> Vector3" where
  "sub_v u w = vec (x u - x w) (y u - y w) (z u - z w)"

definition multiplyScalar :: "Vector3 \<Rightarrow> real \<Rightarrow> Vector3" where
  "multiplyScalar u s = vec (x u * s) (y u * s) (z u * s)"

definition divideScalar :: "Vector3 \<Rightarrow> real \<Rightarrow> Vector3" where
  "divideScalar u s = multiplyScalar u (1 / s)"

definition length_v :: "Vector3 \<Rightarrow> real" where
  "length_v u = sqrt (x u * x u + y u * y u + z u * z u)"

definition normalize_v :: "Vector3 \<Rightarrow> Vector3" where
  "normalize_v u = divideScalar u (if length_v u = 0 then 1 else length_v u)"

definition distanceToSquared :: "Vector3 \<Rightarrow> Vector3 \<Rightarrow> real" where
  "distanceToSquared u w =
     (let dx = x u - x w; dy = y u - y w; dz = z u - z w in dx * dx + dy * dy + dz * dz)"

definition distanceTo :: "Vector3 \<Rightarrow> Vector3 \<Rightarrow> real" where
  "distanceTo u w = sqrt (distanceToSquared u w)"

subsection \<open>Math helpers\<close>

text \<open>\<open>Math.atan2 b a\<close>: the angle of the point with abscissa \<open>a\<close> and ordinate \<open>b\<close>.\<close>

definition atan2 :: "real \<Rightarrow> real \<Rightarrow> real" where
  "atan2 b a =
     (if 0 < a then arctan (b / a)
      else if a < 0 then (if 0 \<le> b then arctan (b / a) + pi else arctan (b / a) - pi)
      else if 0 < b then pi / 2
      else if b < 0 then - (pi / 2)
      else 0)"

text \<open>The two \<open>while\<close> loops that bring the angular difference back into range.\<close>

function wrap_up :: "real \<Rightarrow> real" where
  "wrap_up d = (if d < - pi then wrap_up (d + pi * 2) else d)"
  by pat_completeness auto
termination
proof (relation "measure (\<lambda>d. nat \<lceil>(- pi - d) / (2 * pi)\<rceil>)")
  show "wf (measure (\<lambda>d. nat \<lceil>(- pi - d) / (2 * pi)\<rceil>))" by simp
next
  fix d :: real
  assume lt: "d < - pi"
  have eq: "(- pi - (d + pi * 2)) / (2 * pi) = (- pi - d) / (2 * pi) - 1"
    by (simp add: field_simps)
  have pos: "0 < (- pi - d) / (2 * pi)" using lt by simp
  then have c: "0 < \<lceil>(- pi - d) / (2 * pi)\<rceil>" by simp
  have "\<lceil>(- pi - (d + pi * 2)) / (2 * pi)\<rceil> = \<lceil>(- pi - d) / (2 * pi)\<rceil> - 1"
    unfolding eq by (rule ceiling_diff_one)
  with c have "nat \<lceil>(- pi - (d + pi * 2)) / (2 * pi)\<rceil> < nat \<lceil>(- pi - d) / (2 * pi)\<rceil>"
    by linarith
  then show "(d + pi * 2, d) \<in> measure (\<lambda>d. nat \<lceil>(- pi - d) / (2 * pi)\<rceil>)"
    by simp
qed

function wrap_down :: "real \<Rightarrow> real" where
  "wrap_down d = (if pi < d then wrap_down (d - pi * 2) else d)"
  by pat_completeness auto
termination
proof (relation "measure (\<lambda>d. nat \<lceil>(d - pi) / (2 * pi)\<rceil>)")
  show "wf (measure (\<lambda>d. nat \<lceil>(d - pi) / (2 * pi)\<rceil>))" by simp
next
  fix d :: real
  assume lt: "pi < d"
  have eq: "(d - pi * 2 - pi) / (2 * pi) = (d - pi) / (2 * pi) - 1"
    by (simp add: field_simps)
  have pos: "0 < (d - pi) / (2 * pi)" using lt by simp
  then have c: "0 < \<lceil>(d - pi) / (2 * pi)\<rceil>" by simp
  have "\<lceil>(d - pi * 2 - pi) / (2 * pi)\<rceil> = \<lceil>(d - pi) / (2 * pi)\<rceil> - 1"
    unfolding eq by (rule ceiling_diff_one)
  with c have "nat \<lceil>(d - pi * 2 - pi) / (2 * pi)\<rceil> < nat \<lceil>(d - pi) / (2 * pi)\<rceil>"
    by linarith
  then show "(d - pi * 2, d) \<in> measure (\<lambda>d. nat \<lceil>(d - pi) / (2 * pi)\<rceil>)"
    by simp
qed

declare wrap_up.simps [simp del]
declare wrap_down.simps [simp del]

subsection \<open>Inputs of a frame\<close>

text \<open>
  The keyboard hook yields an object from key codes to booleans; a key never touched is
  absent and reads as falsy. \<open>Math.random\<close> is a stream of draws together with the
  number of draws consumed so far.
\<close>

type_synonym Keys = "string \<Rightarrow> bool option"

definition pressed :: "Keys \<Rightarrow> string \<Rightarrow> bool" where
  "pressed keys k = (keys k = Some True)"

type_synonym Random = "nat \<Rightarrow> real"

section \<open>Movement and AI\<close>

definition player_steer :: "Keys \<Rightarrow> RobotData \<Rightarrow> RobotData" where
  "player_steer keys robot =
     (let robot1 = (if pressed keys ''ArrowLeft'' \<or> pressed keys ''KeyA''
                  then robot\<lparr>rotation := rotation robot + TURN_SPEED\<rparr> else robot);
          robot2 = (if pressed keys ''ArrowRight'' \<or> pressed keys ''KeyD''
                  then robot1\<lparr>rotation := rotation robot1 - TURN_SPEED\<rparr> else robot1);
          forward = vec (sin (rotation robot2)) 0 (cos (rotation robot2));
          up = (pressed keys ''ArrowUp'' \<or> pressed keys ''KeyW'');
          forward1 = (if up then multiplyScalar forward MOVE_SPEED else forward);
          robot3 = (if up then robot2\<lparr>velocity := add_v (velocity robot2) forward1\<rparr> else robot2);
          down = (pressed keys ''ArrowDown'' \<or> pressed keys ''KeyS'');
          forward2 = (if down then multiplyScalar forward1 (- MOVE_SPEED) else forward1);
          robot4 = (if down then robot3\<lparr>velocity := add_v (velocity robot3) forward2\<rparr> else robot3)
      in if pressed keys ''Space'' \<and> \<not> weaponActive robot4
         then robot4\<lparr>weaponActive := True\<rparr> else robot4)"

definition angleToPlayer :: "Vector3 \<Rightarrow> RobotData \<Rightarrow> real" where
  "angleToPlayer playerPos robot =
     (let dirToPlayer = normalize_v (sub_v playerPos (position robot))
      in atan2 (x dirToPlayer) (z dirToPlayer))"

definition angle_diff :: "Vector3 \<Rightarrow> RobotData \<Rightarrow> real" where
  "angle_diff playerPos robot =
     wrap_down (wrap_up (angleToPlayer playerPos robot - rotation robot))"

definition ai_steer :: "Random \<Rightarrow> nat \<Rightarrow> Vector3 \<Rightarrow> RobotData \<Rightarrow> RobotData \<times> nat" where
  "ai_steer rnd n playerPos robot =
     (let diff = angle_diff playerPos robot;
          robot1 = robot\<lparr>rotation := rotation robot + sgn diff * min \<bar>diff\<bar> (TURN_SPEED * 0.3)\<rparr>;
          robot2 = (if \<bar>diff\<bar> < 0.5
                  then robot1\<lparr>velocity := add_v (velocity robot1)
                         (multiplyScalar (vec (sin (rotation robot1)) 0 (cos (rotation robot1)))
                            (MOVE_SPEED * ENEMY_SPEED_MULT))\<rparr>
                  else robot1)
      in if rtype robot2 = spinner
         then ((if rnd n < 0.005 then robot2\<lparr>weaponActive := True\<rparr> else robot2), Suc n)
         else (robot2, n))"

definition steering :: "real \<Rightarrow> Keys \<Rightarrow> Random \<Rightarrow> nat \<Rightarrow> Vector3 \<Rightarrow> RobotData \<Rightarrow> RobotData \<times> nat" where
  "steering now keys rnd n playerPos robot =
     (if stunnedUntil robot \<le> now
      then (if isPlayer robot then (player_steer keys robot, n) else ai_steer rnd n playerPos robot)
      else (robot, n))"

definition integrate :: "RobotData \<Rightarrow> RobotData" where
  "integrate robot =
     robot\<lparr>position := add_v (position robot) (velocity robot),
         velocity := multiplyScalar (velocity robot) FRICTION\<rparr>"

definition halfSize :: real where "halfSize = ARENA_SIZE / 2"
definition wallRange :: real where "wallRange = halfSize - WALL_GAP"
definition bRad :: real where "bRad = ROBOT_RADIUS"

definition wall_x :: "RobotData \<Rightarrow> RobotData" where
  "wall_x robot =
     (if \<bar>z (position robot)\<bar> < wallRange then
        (if halfSize - bRad < x (position robot)
         then robot\<lparr>position := (position robot)\<lparr>x := halfSize - bRad\<rparr>,
                  velocity := (velocity robot)\<lparr>x := x (velocity robot) * (- 0.3)\<rparr>\<rparr>
         else if x (position robot) < - halfSize + bRad
         then robot\<lparr>position := (position robot)\<lparr>x := - halfSize + bRad\<rparr>,
                  velocity := (velocity robot)\<lparr>x := x (velocity robot) * (- 0.3)\<rparr>\<rparr>
         else robot)
      else robot)"

definition wall_z :: "RobotData \<Rightarrow> RobotData" where
  "wall_z robot =
     (if \<bar>x (position robot)\<bar> < wallRange then
        (if halfSize - bRad < z (position robot)
         then robot\<lparr>position := (position robot)\<lparr>z := halfSize - bRad\<rparr>,
                  velocity := (velocity robot)\<lparr>z := z (velocity robot) * (- 0.3)\<rparr>\<rparr>
         else if z (position robot) < - halfSize + bRad
         then robot\<lparr>position := (position robot)\<lparr>z := - halfSize + bRad\<rparr>,
                  velocity := (velocity robot)\<lparr>z := z (velocity robot) * (- 0.3)\<rparr>\<rparr>
         else robot)
      else robot)"

definition walls :: "RobotData \<Rightarrow> RobotData" where
  "walls robot = wall_z (wall_x robot)"

definition pit :: "RobotData \<Rightarrow> RobotData" where
  "pit robot =
     (let isOutOfBoundsX = (halfSize + 0.5 < \<bar>x (position robot)\<bar>);
          isOutOfBoundsZ = (halfSize + 0.5 < \<bar>z (position robot)\<bar>)
      in if isOutOfBoundsX \<or> isOutOfBoundsZ then robot\<lparr>isDead := True, health := 0\<rparr> else robot)"

text \<open>The body of the first \<open>forEach\<close>, for one robot.\<close>

definition move_bot :: "real \<Rightarrow> Keys \<Rightarrow> Random \<Rightarrow> nat \<Rightarrow> Vector3 \<Rightarrow> RobotData \<Rightarrow> RobotData \<times> nat" where
  "move_bot now keys rnd n playerPos robot =
     (if isDead robot then (robot, n)
      else (case steering now keys rnd n playerPos robot of
              (robot1, n1) \<Rightarrow> (pit (walls (integrate robot1)), n1)))"

text \<open>
  The \<open>forEach\<close> visits the robots in order and mutates each in place. The player object is
  one of them, so a robot visited after the player reads the player's position of this
  frame, and a robot visited before it reads the position of the last frame.
\<close>

definition movement_step ::
  "real \<Rightarrow> Keys \<Rightarrow> Random \<Rightarrow> nat \<Rightarrow> RobotData list \<times> nat \<Rightarrow> nat \<Rightarrow> RobotData list \<times> nat" where
  "movement_step now keys rnd pidx st i =
     (case st of (xs, n) \<Rightarrow>
        (case move_bot now keys rnd n (position (xs ! pidx)) (xs ! i) of
           (b, n1) \<Rightarrow> (xs[i := b], n1)))"

definition movement ::
  "real \<Rightarrow> Keys \<Rightarrow> Random \<Rightarrow> nat \<Rightarrow> RobotData list \<Rightarrow> RobotData list \<times> nat" where
  "movement now keys rnd pidx xs =
     foldl (movement_step now keys rnd pidx) (xs, 0) [0..<length xs]"

section \<open>Collisions\<close>

definition minDist :: real where "minDist = ROBOT_RADIUS * 2.1"

definition collision_normal :: "RobotData \<Rightarrow> RobotData \<Rightarrow> Vector3" where
  "collision_normal r1 r2 = normalize_v (sub_v (position r1) (position r2))"

definition spinning :: "RobotData \<Rightarrow> bool" where
  "spinning r = (weaponActive r \<and> rtype r = spinner)"

text \<open>The body of the inner loop for the pair \<open>r1\<close>, \<open>r2\<close>.\<close>

definition collide :: "real \<Rightarrow> RobotData \<Rightarrow> RobotData \<Rightarrow> RobotData \<times> RobotData" where
  "collide now r1 r2 =
     (if isDead r1 \<or> isDead r2 then (r1, r2)
      else
        (let dist = distanceTo (position r1) (position r2) in
         if dist < minDist then
           (let normal = collision_normal r1 r2;
                overlap = minDist - dist;
                p1 = add_v (position r1) (multiplyScalar normal (overlap * 0.4));
                p2 = add_v (position r2) (multiplyScalar normal (- overlap * 0.4));
                knock = KNOCKBACK_FORCE + (if spinning r1 then 0.2 else 0)
                          + (if spinning r2 then 0.2 else 0);
                d2 = 1 + (if spinning r1 then WEAPON_DAMAGE else 0);
                d1 = 1 + (if spinning r2 then WEAPON_DAMAGE else 0);
                v1 = add_v (velocity r1) (multiplyScalar normal knock);
                v2 = add_v (velocity r2) (multiplyScalar normal (- knock));
                h1 = max 0 (health r1 - d1);
                h2 = max 0 (health r2 - d2)
            in (r1\<lparr>position := p1, velocity := v1, health := h1, stunnedUntil := now + 0.2,
                    isDead := (h1 \<le> 0 \<or> isDead r1)\<rparr>,
                r2\<lparr>position := p2, velocity := v2, health := h2, stunnedUntil := now + 0.2,
                    isDead := (h2 \<le> 0 \<or> isDead r2)\<rparr>))
         else (r1, r2)))"

text \<open>
  The nested loops visit the pairs \<open>i < j\<close> row by row; the collection never changes its
  length, so the pairs are those of the length at the start of the pass.
\<close>

definition pairs :: "nat \<Rightarrow> (nat \<times> nat) list" where
  "pairs n = concat (map (\<lambda>i. map (\<lambda>j. (i, j)) [i + 1..<n]) [0..<n])"

definition collide_at :: "real \<Rightarrow> RobotData list \<Rightarrow> nat \<times> nat \<Rightarrow> RobotData list" where
  "collide_at now xs ij =
     (case ij of (i, j) \<Rightarrow>
        (case collide now (xs ! i) (xs ! j) of (r1, r2) \<Rightarrow> xs[i := r1, j := r2]))"

definition collisions :: "real \<Rightarrow> RobotData list \<Rightarrow> RobotData list" where
  "collisions now xs = foldl (collide_at now) xs (pairs (length xs))"

section \<open>Weapon decay and the frame\<close>

definition decay_step :: "Random \<Rightarrow> RobotData list \<times> nat \<Rightarrow> nat \<Rightarrow> RobotData list \<times> nat" where
  "decay_step rnd st i =
     (case st of (xs, n) \<Rightarrow>
        if weaponActive (xs ! i)
        then ((if rnd n < 0.04 then xs[i := (xs ! i)\<lparr>weaponActive := False\<rparr>] else xs), Suc n)
        else (xs, n))"

definition decay :: "Random \<Rightarrow> nat \<Rightarrow> RobotData list \<Rightarrow> RobotData list \<times> nat" where
  "decay rnd n xs = foldl (decay_step rnd) (xs, n) [0..<length xs]"

fun findIndex :: "('a \<Rightarrow> bool) \<Rightarrow> 'a list \<Rightarrow> nat option" where
  "findIndex P [] = None"
| "findIndex P (a # as) = (if P a then Some 0 else map_option Suc (findIndex P as))"

text \<open>
  The part of a frame after the early returns: movement and AI, collisions, weapon decay.
  The camera follows the player and only reads the robots; it is left out.
\<close>

definition frame_body :: "real \<Rightarrow> Keys \<Rightarrow> Random \<Rightarrow> nat \<Rightarrow> RobotData list \<Rightarrow> RobotData list" where
  "frame_body now keys rnd pidx robots =
     (case movement now keys rnd pidx robots of
        (rs1, n1) \<Rightarrow> fst (decay rnd n1 (collisions now rs1)))"

text \<open>
  One frame. The state is the pair of the match state and the robot collection that the
  component holds; the result is the pair after the calls to \<open>setGameState\<close> and
  \<open>setRobots\<close>.
\<close>

definition tick :: "real \<Rightarrow> Keys \<Rightarrow> Random \<Rightarrow> GameState \<times> RobotData list \<Rightarrow> GameState \<times> RobotData list" where
  "tick now keys rnd st =
     (case st of (gameState, robots) \<Rightarrow>
        if gameState \<noteq> PLAYING then (gameState, robots)
        else
          (case findIndex isPlayer robots of
             None \<Rightarrow> (GAME_OVER, robots)
           | Some pidx \<Rightarrow>
               if isDead (robots ! pidx) then (GAME_OVER, robots)
               else if filter (\<lambda>r. \<not> isPlayer r \<and> \<not> isDead r) robots = [] then (VICTORY, robots)
               else (gameState, frame_body now keys rnd pidx robots)))"

subsection \<open>Starting and resetting a match\<close>

definition types :: "RobotType list" where
  "types = [tank, wedge, spinner]"

definition enemy :: "nat \<Rightarrow> RobotData" where
  "enemy i =
     (let angle = (real i / real ENEMY_COUNT) * pi * 2; dist = 6 in
      \<lparr>robot_id = ''enemy-'' @ [char_of (48 + i)], isPlayer = False,
       position = vec (cos angle * dist) 0 (sin angle * dist),
       velocity = vec 0 0 0,
       rotation = pi + angle,
       health = MAX_ROBOT_HEALTH, maxHealth = MAX_ROBOT_HEALTH,
       weaponActive = False, isDead = False, color = ''#ef4444'',
       rtype = types ! (i mod length types), stunnedUntil = 0\<rparr>)"

definition initialRobots :: "RobotData list" where
  "initialRobots =
     \<lparr>robot_id = ''player'', isPlayer = True,
      position = vec 0 0 0, velocity = vec 0 0 0, rotation = 0,
      health = MAX_ROBOT_HEALTH, maxHealth = MAX_ROBOT_HEALTH,
      weaponActive = False, isDead = False, color = ''#facc15'',
      rtype = spinner, stunnedUntil = 0\<rparr> # map enemy [0..<ENEMY_COUNT]"

definition initGame :: "GameState \<times> RobotData list" where
  "initGame = (PLAYING, initialRobots)"

section \<open>Notions used by the properties\<close>

text \<open>A run of frames from a state, one input triple (clock, keys, random draws) a frame.\<close>

definition run_ticks ::
  "(real \<times> Keys \<times> Random) list \<Rightarrow> GameState \<times> RobotData list \<Rightarrow> GameState \<times> RobotData list" where
  "run_ticks inputs st = foldl (\<lambda>s (now, keys, rnd). tick now keys rnd s) st inputs"

text \<open>The test \<open>!player || player.isDead\<close> on the result of \<open>find\<close>.\<close>

definition player_missing_or_dead :: "RobotData list \<Rightarrow> bool" where
  "player_missing_or_dead robots =
     (case find isPlayer robots of None \<Rightarrow> True | Some player \<Rightarrow> isDead player)"

text \<open>The test under which the inner loop resolves a pair.\<close>

definition in_contact :: "RobotData \<Rightarrow> RobotData \<Rightarrow> bool" where
  "in_contact r1 r2 =
     (\<not> isDead r1 \<and> \<not> isDead r2 \<and> distanceTo (position r1) (position r2) < minDist)"

text \<open>
  \<open>no_contact now k xs ps\<close>: while the collision pass runs over the pairs \<open>ps\<close> from the
  collection \<open>xs\<close>, every pair that contains the robot \<open>k\<close> is found out of contact at the
  moment it is examined.
\<close>

fun no_contact :: "real \<Rightarrow> nat \<Rightarrow> RobotData list \<Rightarrow> (nat \<times> nat) list \<Rightarrow> bool" where
  "no_contact now k xs [] = True"
| "no_contact now k xs ((i, j) # ps) =
     ((k = i \<or> k = j \<longrightarrow> \<not> in_contact (xs ! i) (xs ! j)) \<and>
      no_contact now k (collide_at now xs (i, j)) ps)"

text \<open>A robot as \<open>initGame\<close> makes them, at a chosen place, heading, health and weapon state.\<close>

definition robot_at :: "bool \<Rightarrow> RobotType \<Rightarrow> Vector3 \<Rightarrow> real \<Rightarrow> real \<Rightarrow> bool \<Rightarrow> RobotData" where
  "robot_at player ty pos rot h active =
     \<lparr>robot_id = (if player then ''player'' else ''enemy-0''), isPlayer = player,
      position = pos, velocity = vec 0 0 0, rotation = rot,
      health = h, maxHealth = MAX_ROBOT_HEALTH,
      weaponActive = active, isDead = False,
      color = (if player then ''#facc15'' else ''#ef4444''),
      rtype = ty, stunnedUntil = 0\<rparr>"

text \<open>The test of the pit check.\<close>

definition out_of_bounds :: "RobotData \<Rightarrow> bool" where
  "out_of_bounds r =
     (halfSize + 0.5 < \<bar>x (position r)\<bar> \<or> halfSize + 0.5 < \<bar>z (position r)\<bar>)"

text \<open>
  What a frame may do to one robot, as far as health and death go: the maximum is kept, a
  health that is not negative stays so and does not grow, and a dead robot keeps its health
  and its place.
\<close>

definition evolves :: "RobotData \<Rightarrow> RobotData \<Rightarrow> bool" where
  "evolves r r' =
     (maxHealth r' = maxHealth r \<and>
      (0 \<le> health r \<longrightarrow> 0 \<le> health r' \<and> health r' \<le> health r) \<and>
      (isDead r \<longrightarrow> isDead r' \<and> health r' = health r \<and> position r' = position r
                    \<and> velocity r' = velocity r))"

text \<open>The tests under which one of the two wall checks moves a robot.\<close>

definition wall_clamp_applies :: "RobotData \<Rightarrow> bool" where
  "wall_clamp_applies r =
     ((\<bar>z (position r)\<bar> < wallRange \<and>
         (halfSize - bRad < x (position r) \<or> x (position r) < - halfSize + bRad)) \<or>
      (\<bar>x (position r)\<bar> < wallRange \<and>
         (halfSize - bRad < z (position r) \<or> z (position r) < - halfSize + bRad)))"

text \<open>
  A robot to whose velocity the steering of this frame adds nothing: it is dead, or stunned,
  or it is the player and neither thrust control is held.
\<close>

definition no_thrust :: "real \<Rightarrow> Keys \<Rightarrow> RobotData \<Rightarrow> bool" where
  "no_thrust now keys r =
     (isDead r \<or> now < stunnedUntil r \<or>
      (isPlayer r \<and> \<not> pressed keys ''ArrowUp'' \<and> \<not> pressed keys ''KeyW'' \<and>
       \<not> pressed keys ''ArrowDown'' \<and> \<not> pressed keys ''KeyS''))"

text \<open>
  The robot \<open>k\<close> finds no collision partner in this frame: in the collision pass that
  follows the movement pass, no pair with \<open>k\<close> in it is in contact when it is examined.
\<close>

definition untouched :: "real \<Rightarrow> Keys \<Rightarrow> Random \<Rightarrow> RobotData list \<Rightarrow> nat \<Rightarrow> bool" where
  "untouched now keys rnd rs k =
     (case findIndex isPlayer rs of
        None \<Rightarrow> True
      | Some pidx \<Rightarrow> no_contact now k (fst (movement now keys rnd pidx rs)) (pairs (length rs)))"

text \<open>Robots used as examples below.\<close>

definition wall_example :: RobotData where
  "wall_example = (robot_at False tank (vec 9 0 3) 0 100 False)\<lparr>velocity := vec 5 0 0\<rparr>"

definition pit_example :: RobotData where
  "pit_example =
     (robot_at False tank (vec 11 0 9) 0 100 False)\<lparr>velocity := vec 1 0 0, stunnedUntil := 5\<rparr>"

text \<open>
  The player at rest in the middle of the arena and a tank two units behind it that faces
  it; in \<open>stunned_scene\<close> the tank is stunned.
\<close>

definition facing_scene :: "RobotData list" where
  "facing_scene =
     [robot_at True spinner (vec 0 0 0) 0 100 False,
      robot_at False tank (vec 0 0 (- 2)) 0 100 False]"

definition stunned_scene :: "RobotData list" where
  "stunned_scene =
     [robot_at True spinner (vec 0 0 0) 0 100 False,
      (robot_at False tank (vec 0 0 (- 2)) 0 100 False)\<lparr>stunnedUntil := 5\<rparr>]"

text \<open>Inputs of a frame in which no key is held and no random draw falls under a threshold.\<close>

definition no_keys :: Keys where
  "no_keys k = None"

definition no_draw :: Random where
  "no_draw n = 1 / 2"

section \<open>Basic facts\<close>

lemmas constants_defs =
  ARENA_SIZE_def WALL_GAP_def ROBOT_RADIUS_def MAX_ROBOT_HEALTH_def MOVE_SPEED_def
  ENEMY_SPEED_MULT_def TURN_SPEED_def FRICTION_def KNOCKBACK_FORCE_def WEAPON_DAMAGE_def
  ENEMY_COUNT_def

lemmas arena_defs = halfSize_def wallRange_def bRad_def minDist_def

lemma vec_sel [simp]: "x (vec a b c) = a" "y (vec a b c) = b" "z (vec a b c) = c"
  by (simp_all add: vec_def)

lemma find_findIndex: "find P xs = map_option (nth xs) (findIndex P xs)"
  by (induction xs) (auto simp: option.map_comp comp_def intro: option.map_cong)

lemma findIndex_Some: "findIndex P xs = Some i \<Longrightarrow> i < length xs \<and> P (xs ! i)"
  by (induction xs arbitrary: i) (auto split: if_splits)

section \<open>The match state machine\<close>

lemma tick_frozen: "fst st \<noteq> PLAYING \<Longrightarrow> tick now keys rnd st = st"
  by (cases st) (simp add: tick_def)

lemma run_ticks_frozen: "fst st \<noteq> PLAYING \<Longrightarrow> run_ticks inputs st = st"
  unfolding run_ticks_def
  by (induction inputs) (auto simp: tick_frozen)

text \<open>
  Claim C5. The match state is one value, so a frame never reports victory and defeat
  together; from \<open>GAME_OVER\<close> or \<open>VICTORY\<close> any number of frames, whatever their
  inputs, leaves the match state and every field of every robot as it was; the reset
  \<open>initGame\<close> installs the freshly built collection and the state \<open>PLAYING\<close>.
\<close>

theorem terminal_states_freeze:
  "\<not> (fst (tick now keys rnd st) = VICTORY \<and> fst (tick now keys rnd st) = GAME_OVER) \<and>
   (fst st = GAME_OVER \<or> fst st = VICTORY \<longrightarrow> run_ticks inputs st = st) \<and>
   fst initGame = PLAYING \<and> snd initGame = initialRobots"
  by (auto simp: run_ticks_frozen initGame_def)

theorem terminal_states_freeze_witness:
  "run_ticks [(1, no_keys, no_draw), (2, no_keys, no_draw)] (GAME_OVER, initialRobots)
     = (GAME_OVER, initialRobots) \<and>
   run_ticks [(1, no_keys, no_draw), (2, no_keys, no_draw)] (VICTORY, initialRobots)
     = (VICTORY, initialRobots)"
  using terminal_states_freeze [of 0 no_keys no_draw "(GAME_OVER, initialRobots)"
          "[(1, no_keys, no_draw), (2, no_keys, no_draw)]"]
        terminal_states_freeze [of 0 no_keys no_draw "(VICTORY, initialRobots)"
          "[(1, no_keys, no_draw), (2, no_keys, no_draw)]"]
  by simp

text \<open>
  Claim C8. In a frame of a running match, when \<open>find\<close> yields no player or a dead one,
  the frame sets the state to \<open>GAME_OVER\<close> and returns: the result is a value, not a
  fault, and the collection is the one the frame started with.
\<close>

theorem missing_or_dead_player_loses:
  "player_missing_or_dead robots \<Longrightarrow>
   tick now keys rnd (PLAYING, robots) = (GAME_OVER, robots)"
  by (auto simp: player_missing_or_dead_def tick_def find_findIndex split: option.splits)

theorem missing_or_dead_player_loses_witness:
  "player_missing_or_dead [] \<and>
   tick 1 no_keys no_draw (PLAYING, []) = (GAME_OVER, []) \<and>
   player_missing_or_dead
     [robot_at False tank (vec 3 0 0) 0 100 False,
      (robot_at True spinner (vec 0 0 0) 0 0 False)\<lparr>isDead := True\<rparr>] \<and>
   tick 1 no_keys no_draw
     (PLAYING, [robot_at False tank (vec 3 0 0) 0 100 False,
                (robot_at True spinner (vec 0 0 0) 0 0 False)\<lparr>isDead := True\<rparr>])
     = (GAME_OVER, [robot_at False tank (vec 3 0 0) 0 100 False,
                    (robot_at True spinner (vec 0 0 0) 0 0 False)\<lparr>isDead := True\<rparr>])"
proof -
  have a: "player_missing_or_dead []"
    by (simp add: player_missing_or_dead_def)
  have b: "player_missing_or_dead
     [robot_at False tank (vec 3 0 0) 0 100 False,
      (robot_at True spinner (vec 0 0 0) 0 0 False)\<lparr>isDead := True\<rparr>]"
    by (simp add: player_missing_or_dead_def robot_at_def)
  show ?thesis
    using a b missing_or_dead_player_loses [OF a, of 1 no_keys no_draw]
      missing_or_dead_player_loses [OF b, of 1 no_keys no_draw]
    by simp
qed

section \<open>One robot in the movement pass\<close>

lemma robot_at_sel [simp]:
  "isPlayer (robot_at pl ty pos rot h a) = pl"
  "position (robot_at pl ty pos rot h a) = pos"
  "velocity (robot_at pl ty pos rot h a) = vec 0 0 0"
  "rotation (robot_at pl ty pos rot h a) = rot"
  "health (robot_at pl ty pos rot h a) = h"
  "maxHealth (robot_at pl ty pos rot h a) = 100"
  "weaponActive (robot_at pl ty pos rot h a) = a"
  "isDead (robot_at pl ty pos rot h a) = False"
  "rtype (robot_at pl ty pos rot h a) = ty"
  "stunnedUntil (robot_at pl ty pos rot h a) = 0"
  by (simp_all add: robot_at_def MAX_ROBOT_HEALTH_def)

lemma arena_numbers:
  "halfSize = 11" "wallRange = 6" "bRad = 4 / 5" "minDist = 42 / 25"
  by (simp_all add: halfSize_def wallRange_def bRad_def minDist_def constants_defs)

lemma vec_eq_iff: "((u::Vector3) = w) = (x u = x w \<and> y u = y w \<and> z u = z w)"
  by (cases u, cases w) auto

lemma add_v_sel [simp]:
  "x (add_v u w) = x u + x w" "y (add_v u w) = y u + y w" "z (add_v u w) = z u + z w"
  by (simp_all add: add_v_def)

lemma sub_v_sel [simp]:
  "x (sub_v u w) = x u - x w" "y (sub_v u w) = y u - y w" "z (sub_v u w) = z u - z w"
  by (simp_all add: sub_v_def)

lemma multiplyScalar_sel [simp]:
  "x (multiplyScalar u s) = x u * s" "y (multiplyScalar u s) = y u * s"
  "z (multiplyScalar u s) = z u * s"
  by (simp_all add: multiplyScalar_def)

lemma integrate_sel [simp]:
  "position (integrate c) = add_v (position c) (velocity c)"
  "velocity (integrate c) = multiplyScalar (velocity c) FRICTION"
  "health (integrate c) = health c" "maxHealth (integrate c) = maxHealth c"
  "isDead (integrate c) = isDead c" "isPlayer (integrate c) = isPlayer c"
  "rotation (integrate c) = rotation c" "stunnedUntil (integrate c) = stunnedUntil c"
  "weaponActive (integrate c) = weaponActive c" "rtype (integrate c) = rtype c"
  by (simp_all add: integrate_def)

lemma wall_x_sel [simp]:
  "health (wall_x c) = health c" "maxHealth (wall_x c) = maxHealth c"
  "isDead (wall_x c) = isDead c" "isPlayer (wall_x c) = isPlayer c"
  "rotation (wall_x c) = rotation c" "stunnedUntil (wall_x c) = stunnedUntil c"
  "weaponActive (wall_x c) = weaponActive c" "rtype (wall_x c) = rtype c"
  "y (position (wall_x c)) = y (position c)" "z (position (wall_x c)) = z (position c)"
  "y (velocity (wall_x c)) = y (velocity c)" "z (velocity (wall_x c)) = z (velocity c)"
  by (simp_all add: wall_x_def)

lemma wall_z_sel [simp]:
  "health (wall_z c) = health c" "maxHealth (wall_z c) = maxHealth c"
  "isDead (wall_z c) = isDead c" "isPlayer (wall_z c) = isPlayer c"
  "rotation (wall_z c) = rotation c" "stunnedUntil (wall_z c) = stunnedUntil c"
  "weaponActive (wall_z c) = weaponActive c" "rtype (wall_z c) = rtype c"
  "y (position (wall_z c)) = y (position c)" "x (position (wall_z c)) = x (position c)"
  "y (velocity (wall_z c)) = y (velocity c)" "x (velocity (wall_z c)) = x (velocity c)"
  by (simp_all add: wall_z_def)

lemma wall_x_pos_x:
  "x (position (wall_x c)) =
     (if \<bar>z (position c)\<bar> < wallRange \<and> halfSize - bRad < x (position c) then halfSize - bRad
      else if \<bar>z (position c)\<bar> < wallRange \<and> x (position c) < - halfSize + bRad
      then - halfSize + bRad else x (position c))"
  by (simp add: wall_x_def)

lemma wall_x_vel_x:
  "x (velocity (wall_x c)) =
     (if \<bar>z (position c)\<bar> < wallRange \<and>
         (halfSize - bRad < x (position c) \<or> x (position c) < - halfSize + bRad)
      then x (velocity c) * (- 0.3) else x (velocity c))"
  by (simp add: wall_x_def)

lemma wall_z_pos_z:
  "z (position (wall_z c)) =
     (if \<bar>x (position c)\<bar> < wallRange \<and> halfSize - bRad < z (position c) then halfSize - bRad
      else if \<bar>x (position c)\<bar> < wallRange \<and> z (position c) < - halfSize + bRad
      then - halfSize + bRad else z (position c))"
  by (simp add: wall_z_def)

lemma wall_z_vel_z:
  "z (velocity (wall_z c)) =
     (if \<bar>x (position c)\<bar> < wallRange \<and>
         (halfSize - bRad < z (position c) \<or> z (position c) < - halfSize + bRad)
      then z (velocity c) * (- 0.3) else z (velocity c))"
  by (simp add: wall_z_def)

lemma walls_sel [simp]:
  "health (walls c) = health c" "maxHealth (walls c) = maxHealth c"
  "isDead (walls c) = isDead c" "isPlayer (walls c) = isPlayer c"
  "rotation (walls c) = rotation c" "stunnedUntil (walls c) = stunnedUntil c"
  "weaponActive (walls c) = weaponActive c" "rtype (walls c) = rtype c"
  "y (position (walls c)) = y (position c)" "y (velocity (walls c)) = y (velocity c)"
  by (simp_all add: walls_def)

lemma walls_pos_x:
  "x (position (walls c)) =
     (if \<bar>z (position c)\<bar> < 6 \<and> 51 / 5 < x (position c) then 51 / 5
      else if \<bar>z (position c)\<bar> < 6 \<and> x (position c) < - (51 / 5) then - (51 / 5)
      else x (position c))"
  by (simp add: walls_def wall_x_pos_x arena_numbers)

lemma walls_pos_z:
  "z (position (walls c)) =
     (if \<bar>x (position (walls c))\<bar> < 6 \<and> 51 / 5 < z (position c) then 51 / 5
      else if \<bar>x (position (walls c))\<bar> < 6 \<and> z (position c) < - (51 / 5) then - (51 / 5)
      else z (position c))"
  by (simp add: walls_def wall_z_pos_z arena_numbers)

lemma walls_vel_x:
  "x (velocity (walls c)) =
     (if \<bar>z (position c)\<bar> < 6 \<and> (51 / 5 < x (position c) \<or> x (position c) < - (51 / 5))
      then x (velocity c) * (- 0.3) else x (velocity c))"
  by (auto simp: walls_def wall_x_vel_x arena_numbers)

lemma walls_vel_z:
  "z (velocity (walls c)) =
     (if \<bar>x (position (walls c))\<bar> < 6 \<and> (51 / 5 < z (position c) \<or> z (position c) < - (51 / 5))
      then z (velocity c) * (- 0.3) else z (velocity c))"
  by (auto simp: walls_def wall_z_vel_z arena_numbers)

lemma pit_alt: "pit c = (if out_of_bounds c then c\<lparr>isDead := True, health := 0\<rparr> else c)"
  by (simp add: pit_def out_of_bounds_def Let_def)

lemma pit_sel [simp]:
  "position (pit c) = position c" "velocity (pit c) = velocity c"
  "maxHealth (pit c) = maxHealth c" "isPlayer (pit c) = isPlayer c"
  "rotation (pit c) = rotation c" "stunnedUntil (pit c) = stunnedUntil c"
  "weaponActive (pit c) = weaponActive c" "rtype (pit c) = rtype c"
  "isDead (pit c) = (out_of_bounds c \<or> isDead c)"
  "health (pit c) = (if out_of_bounds c then 0 else health c)"
  by (simp_all add: pit_alt)

text \<open>
  Claim C4. Take any robot, let it advance by its velocity (whatever that is) and resolve the
  walls. Afterwards, whenever the coordinate on the other axis lies in the solid part of
  the wall (its absolute value is below \<open>H - G\<close>, read either before or after the
  resolution), the coordinate on the constrained axis is at most \<open>H - radius\<close> in absolute
  value. Where the position had gone beyond that bound in the solid part, it is set to the
  bound on the side it left and the velocity component is multiplied by \<open>-0.3\<close>.
\<close>

theorem wall_containment:
  "(let c = integrate b; b' = walls c in
     (\<bar>z (position b')\<bar> < halfSize - WALL_GAP \<longrightarrow> \<bar>x (position b')\<bar> \<le> halfSize - ROBOT_RADIUS) \<and>
     (\<bar>x (position b')\<bar> < halfSize - WALL_GAP \<longrightarrow> \<bar>z (position b')\<bar> \<le> halfSize - ROBOT_RADIUS) \<and>
     (\<bar>z (position c)\<bar> < halfSize - WALL_GAP \<longrightarrow> \<bar>x (position b')\<bar> \<le> halfSize - ROBOT_RADIUS) \<and>
     (\<bar>x (position c)\<bar> < halfSize - WALL_GAP \<longrightarrow> \<bar>z (position b')\<bar> \<le> halfSize - ROBOT_RADIUS) \<and>
     (\<bar>z (position c)\<bar> < halfSize - WALL_GAP \<and> halfSize - ROBOT_RADIUS < \<bar>x (position c)\<bar> \<longrightarrow>
        x (position b') = sgn (x (position c)) * (halfSize - ROBOT_RADIUS) \<and>
        x (velocity b') = x (velocity c) * (- 0.3)) \<and>
     (\<bar>x (position c)\<bar> < halfSize - WALL_GAP \<and> halfSize - ROBOT_RADIUS < \<bar>z (position c)\<bar> \<longrightarrow>
        z (position b') = sgn (z (position c)) * (halfSize - ROBOT_RADIUS) \<and>
        z (velocity b') = z (velocity c) * (- 0.3)))"
proof -
  define c where "c = integrate b"
  define px where "px = x (position c)"
  define pz where "pz = z (position c)"
  define qx where "qx = x (position (walls c))"
  have wx: "qx = (if \<bar>pz\<bar> < 6 \<and> 51 / 5 < px then 51 / 5
      else if \<bar>pz\<bar> < 6 \<and> px < - (51 / 5) then - (51 / 5) else px)"
    unfolding qx_def px_def pz_def by (rule walls_pos_x)
  have wz: "z (position (walls c)) =
     (if \<bar>qx\<bar> < 6 \<and> 51 / 5 < pz then 51 / 5
      else if \<bar>qx\<bar> < 6 \<and> pz < - (51 / 5) then - (51 / 5) else pz)"
    unfolding qx_def pz_def by (rule walls_pos_z)
  have vx: "x (velocity (walls c)) =
     (if \<bar>pz\<bar> < 6 \<and> (51 / 5 < px \<or> px < - (51 / 5)) then x (velocity c) * (- 0.3)
      else x (velocity c))"
    unfolding px_def pz_def by (rule walls_vel_x)
  have vz: "z (velocity (walls c)) =
     (if \<bar>qx\<bar> < 6 \<and> (51 / 5 < pz \<or> pz < - (51 / 5)) then z (velocity c) * (- 0.3)
      else z (velocity c))"
    unfolding qx_def pz_def by (rule walls_vel_z)
  have 1: "\<bar>z (position (walls c))\<bar> < 6 \<longrightarrow> \<bar>qx\<bar> \<le> 51 / 5"
    unfolding wz unfolding wx by (auto split: if_splits)
  have 2: "\<bar>qx\<bar> < 6 \<longrightarrow> \<bar>z (position (walls c))\<bar> \<le> 51 / 5"
    unfolding wz unfolding wx by (auto split: if_splits)
  have 3: "\<bar>pz\<bar> < 6 \<longrightarrow> \<bar>qx\<bar> \<le> 51 / 5"
    unfolding wx by (auto split: if_splits)
  have 4: "\<bar>px\<bar> < 6 \<longrightarrow> \<bar>z (position (walls c))\<bar> \<le> 51 / 5"
    unfolding wz unfolding wx by (auto split: if_splits)
  have 5: "\<bar>pz\<bar> < 6 \<and> 51 / 5 < \<bar>px\<bar> \<longrightarrow>
        qx = sgn px * (51 / 5) \<and> x (velocity (walls c)) = x (velocity c) * (- 0.3)"
    unfolding wx vx by (auto simp: sgn_real_def split: if_splits)
  have 6: "\<bar>px\<bar> < 6 \<and> 51 / 5 < \<bar>pz\<bar> \<longrightarrow>
        z (position (walls c)) = sgn pz * (51 / 5) \<and> z (velocity (walls c)) = z (velocity c) * (- 0.3)"
    unfolding wz vz unfolding wx by (auto simp: sgn_real_def split: if_splits)
  have n: "halfSize - WALL_GAP = 6" "halfSize - ROBOT_RADIUS = 51 / 5"
    by (simp_all add: halfSize_def constants_defs)
  show ?thesis
    unfolding Let_def n c_def [symmetric] px_def [symmetric] pz_def [symmetric] qx_def [symmetric]
    using 1 2 3 4 5 6 by blast
qed

lemma wall_example_sel [simp]:
  "position wall_example = vec 9 0 3" "velocity wall_example = vec 5 0 0"
  by (simp_all add: wall_example_def)

theorem wall_containment_witness:
  "\<bar>z (position (walls (integrate wall_example)))\<bar> < halfSize - WALL_GAP \<and>
   \<bar>z (position (integrate wall_example))\<bar> < halfSize - WALL_GAP \<and>
   halfSize - ROBOT_RADIUS < \<bar>x (position (integrate wall_example))\<bar> \<and>
   \<bar>x (position (walls (integrate wall_example)))\<bar> \<le> halfSize - ROBOT_RADIUS \<and>
   x (position (walls (integrate wall_example))) = 51 / 5 \<and>
   x (velocity (walls (integrate wall_example))) = - (69 / 50)"
proof -
  have n: "halfSize - WALL_GAP = 6" "halfSize - ROBOT_RADIUS = 51 / 5"
    by (simp_all add: halfSize_def constants_defs)
  have a: "z (position (walls (integrate wall_example))) = 3"
    by (simp add: walls_pos_z walls_pos_x)
  show ?thesis
    using wall_containment [of wall_example]
    by (simp add: Let_def n a FRICTION_def)
qed

section \<open>One pair in the collision pass\<close>

lemma collide_hit:
  assumes "in_contact r1 r2"
  shows "collide now r1 r2 =
     (let normal = collision_normal r1 r2;
          overlap = minDist - distanceTo (position r1) (position r2);
          knock = KNOCKBACK_FORCE + (if spinning r1 then 0.2 else 0)
                          + (if spinning r2 then 0.2 else 0);
          h1 = max 0 (health r1 - (1 + (if spinning r2 then WEAPON_DAMAGE else 0)));
          h2 = max 0 (health r2 - (1 + (if spinning r1 then WEAPON_DAMAGE else 0)))
      in (r1\<lparr>position := add_v (position r1) (multiplyScalar normal (overlap * 0.4)),
              velocity := add_v (velocity r1) (multiplyScalar normal knock),
              health := h1, stunnedUntil := now + 0.2, isDead := (h1 \<le> 0)\<rparr>,
          r2\<lparr>position := add_v (position r2) (multiplyScalar normal (- overlap * 0.4)),
              velocity := add_v (velocity r2) (multiplyScalar normal (- knock)),
              health := h2, stunnedUntil := now + 0.2, isDead := (h2 \<le> 0)\<rparr>))"
  using assms by (simp add: collide_def in_contact_def Let_def)

lemma collide_miss: "\<not> in_contact r1 r2 \<Longrightarrow> collide now r1 r2 = (r1, r2)"
  by (auto simp: collide_def in_contact_def Let_def)

lemma collide_health:
  assumes "in_contact r1 r2"
  shows "health (fst (collide now r1 r2)) =
           max 0 (health r1 - (1 + (if spinning r2 then WEAPON_DAMAGE else 0)))"
    and "health (snd (collide now r1 r2)) =
           max 0 (health r2 - (1 + (if spinning r1 then WEAPON_DAMAGE else 0)))"
    and "stunnedUntil (fst (collide now r1 r2)) = now + 0.2"
    and "stunnedUntil (snd (collide now r1 r2)) = now + 0.2"
  by (simp_all add: collide_hit [OF assms] Let_def)

lemma in_contact_weapon [simp]:
  "in_contact (r1\<lparr>weaponActive := w\<rparr>) r2 = in_contact r1 r2"
  "in_contact r1 (r2\<lparr>weaponActive := w\<rparr>) = in_contact r1 r2"
  by (simp_all add: in_contact_def)

text \<open>
  Claim C1, as amended. When the inner loop resolves a pair of live robots closer than 2.1
  radii, the health of each becomes the larger of 0 and its health minus the damage it
  takes: 1, plus \<open>WEAPON_DAMAGE\<close> when the other robot is a spinner with its weapon
  active. So the loss is exactly that damage whenever the health is at least the damage. A
  robot's own weapon state does not enter its own loss, and both robots get
  \<open>stunnedUntil = now + 0.2\<close>.
\<close>

theorem collision_damage_and_stun:
  assumes "\<not> isDead r1" and "\<not> isDead r2"
    and "distanceTo (position r1) (position r2) < ROBOT_RADIUS * 2.1"
  shows "(let d1 = 1 + (if spinning r2 then WEAPON_DAMAGE else 0);
              d2 = 1 + (if spinning r1 then WEAPON_DAMAGE else 0);
              r1' = fst (collide now r1 r2);
              r2' = snd (collide now r1 r2)
          in health r1' = max 0 (health r1 - d1) \<and> health r2' = max 0 (health r2 - d2) \<and>
             (d1 \<le> health r1 \<longrightarrow> health r1 - health r1' = d1) \<and>
             (d2 \<le> health r2 \<longrightarrow> health r2 - health r2' = d2) \<and>
             health (fst (collide now (r1\<lparr>weaponActive := w\<rparr>) r2)) = health r1' \<and>
             health (snd (collide now r1 (r2\<lparr>weaponActive := w\<rparr>))) = health r2' \<and>
             stunnedUntil r1' = now + 0.2 \<and> stunnedUntil r2' = now + 0.2)"
proof -
  have hit: "in_contact r1 r2"
    using assms by (simp add: in_contact_def minDist_def)
  have hit1: "in_contact (r1\<lparr>weaponActive := w\<rparr>) r2" and hit2: "in_contact r1 (r2\<lparr>weaponActive := w\<rparr>)"
    using hit by simp_all
  have own1: "health (fst (collide now (r1\<lparr>weaponActive := w\<rparr>) r2)) = health (fst (collide now r1 r2))"
    by (simp add: collide_health(1) [OF hit1] collide_health(1) [OF hit])
  have own2: "health (snd (collide now r1 (r2\<lparr>weaponActive := w\<rparr>))) = health (snd (collide now r1 r2))"
    by (simp add: collide_health(2) [OF hit2] collide_health(2) [OF hit])
  show ?thesis
    unfolding Let_def own1 own2
    by (simp add: collide_health [OF hit])
qed

lemma robot_at_spinning [simp]:
  "spinning (robot_at pl ty pos rot h a) = (a \<and> ty = spinner)"
  by (simp add: spinning_def)

lemma unit_apart: "distanceTo (vec 0 0 0) (vec 1 0 0) = 1"
  by (simp add: distanceTo_def distanceToSquared_def)

theorem collision_damage_and_stun_witness:
  "\<not> isDead (robot_at True spinner (vec 0 0 0) 0 100 True) \<and>
   \<not> isDead (robot_at False tank (vec 1 0 0) 0 100 False) \<and>
   distanceTo (position (robot_at True spinner (vec 0 0 0) 0 100 True))
              (position (robot_at False tank (vec 1 0 0) 0 100 False)) < ROBOT_RADIUS * 2.1 \<and>
   health (fst (collide 3 (robot_at True spinner (vec 0 0 0) 0 100 True)
                          (robot_at False tank (vec 1 0 0) 0 100 False))) = 99 \<and>
   health (snd (collide 3 (robot_at True spinner (vec 0 0 0) 0 100 True)
                          (robot_at False tank (vec 1 0 0) 0 100 False))) = 84 \<and>
   stunnedUntil (fst (collide 3 (robot_at True spinner (vec 0 0 0) 0 100 True)
                          (robot_at False tank (vec 1 0 0) 0 100 False))) = 16 / 5 \<and>
   stunnedUntil (snd (collide 3 (robot_at True spinner (vec 0 0 0) 0 100 True)
                          (robot_at False tank (vec 1 0 0) 0 100 False))) = 16 / 5"
proof -
  have a: "\<not> isDead (robot_at True spinner (vec 0 0 0) 0 100 True)"
    and b: "\<not> isDead (robot_at False tank (vec 1 0 0) 0 100 False)"
    by simp_all
  have c: "distanceTo (position (robot_at True spinner (vec 0 0 0) 0 100 True))
              (position (robot_at False tank (vec 1 0 0) 0 100 False)) < ROBOT_RADIUS * 2.1"
    by (simp add: unit_apart ROBOT_RADIUS_def)
  show ?thesis
    using a b c collision_damage_and_stun [OF a b c, of 3 False]
    by (simp add: Let_def WEAPON_DAMAGE_def)
qed

text \<open>
  The claim as first stated fails for a robot with less health than the damage: a tank
  with health 4 hit by an active spinner ends at 0, a loss of 4 and not of 16.
\<close>

theorem weapon_damage_counterexample:
  "\<not> isDead (robot_at True spinner (vec 0 0 0) 0 100 True) \<and>
   \<not> isDead (robot_at False tank (vec 1 0 0) 0 4 False) \<and>
   spinning (robot_at True spinner (vec 0 0 0) 0 100 True) \<and>
   distanceTo (position (robot_at True spinner (vec 0 0 0) 0 100 True))
              (position (robot_at False tank (vec 1 0 0) 0 4 False)) < ROBOT_RADIUS * 2.1 \<and>
   health (robot_at False tank (vec 1 0 0) 0 4 False) = 4 \<and>
   health (snd (collide 0 (robot_at True spinner (vec 0 0 0) 0 100 True)
                          (robot_at False tank (vec 1 0 0) 0 4 False))) = 0 \<and>
   health (robot_at False tank (vec 1 0 0) 0 4 False)
     - health (snd (collide 0 (robot_at True spinner (vec 0 0 0) 0 100 True)
                              (robot_at False tank (vec 1 0 0) 0 4 False))) \<noteq> 1 + WEAPON_DAMAGE"
proof -
  have hit: "in_contact (robot_at True spinner (vec 0 0 0) 0 100 True)
                        (robot_at False tank (vec 1 0 0) 0 4 False)"
    by (simp add: in_contact_def unit_apart arena_numbers)
  show ?thesis
    by (simp add: collide_health [OF hit] unit_apart ROBOT_RADIUS_def WEAPON_DAMAGE_def)
qed

subsection \<open>Two robots at the same place\<close>

lemma distanceTo_self [simp]: "distanceTo p p = 0"
  by (simp add: distanceTo_def distanceToSquared_def)

lemma normalize_zero: "normalize_v (sub_v p p) = vec 0 0 0"
  by (simp add: normalize_v_def length_v_def divideScalar_def vec_eq_iff)

lemma add_zero_v [simp]: "add_v p (multiplyScalar (vec 0 0 0) s) = p"
  by (simp add: vec_eq_iff)

lemma length_zero_v [simp]: "length_v (vec 0 0 0) = 0"
  by (simp add: length_v_def)

text \<open>
  Claim C7, as amended. Two live robots at the same position are a pair the inner loop
  resolves. The normal is then the zero vector, since the normalisation leaves a zero
  vector as it is; the overlap resolution and the knockback add multiples of it, so both
  positions and both velocities stay as they were. Damage and stun are applied as in any
  other collision.
\<close>

theorem coincident_collision_zero_normal:
  assumes "\<not> isDead r1" and "\<not> isDead r2" and "position r1 = position r2"
  shows "in_contact r1 r2 \<and> collision_normal r1 r2 = vec 0 0 0 \<and>
         position (fst (collide now r1 r2)) = position r1 \<and>
         position (snd (collide now r1 r2)) = position r2 \<and>
         velocity (fst (collide now r1 r2)) = velocity r1 \<and>
         velocity (snd (collide now r1 r2)) = velocity r2 \<and>
         health (fst (collide now r1 r2)) =
           max 0 (health r1 - (1 + (if spinning r2 then WEAPON_DAMAGE else 0))) \<and>
         health (snd (collide now r1 r2)) =
           max 0 (health r2 - (1 + (if spinning r1 then WEAPON_DAMAGE else 0))) \<and>
         stunnedUntil (fst (collide now r1 r2)) = now + 0.2 \<and>
         stunnedUntil (snd (collide now r1 r2)) = now + 0.2"
proof -
  have hit: "in_contact r1 r2"
    using assms by (simp add: in_contact_def arena_numbers)
  have n: "collision_normal r1 r2 = vec 0 0 0"
    using assms(3) by (simp add: collision_normal_def normalize_zero)
  show ?thesis
    using hit n by (simp add: collide_hit [OF hit] Let_def)
qed

theorem coincident_collision_zero_normal_witness:
  "\<not> isDead (robot_at True spinner (vec 2 0 2) 0 100 False) \<and>
   \<not> isDead (robot_at False tank (vec 2 0 2) 0 100 False) \<and>
   position (robot_at True spinner (vec 2 0 2) 0 100 False)
     = position (robot_at False tank (vec 2 0 2) 0 100 False) \<and>
   position (fst (collide 3 (robot_at True spinner (vec 2 0 2) 0 100 False)
                            (robot_at False tank (vec 2 0 2) 0 100 False))) = vec 2 0 2 \<and>
   position (snd (collide 3 (robot_at True spinner (vec 2 0 2) 0 100 False)
                            (robot_at False tank (vec 2 0 2) 0 100 False))) = vec 2 0 2 \<and>
   velocity (fst (collide 3 (robot_at True spinner (vec 2 0 2) 0 100 False)
                            (robot_at False tank (vec 2 0 2) 0 100 False))) = vec 0 0 0 \<and>
   health (snd (collide 3 (robot_at True spinner (vec 2 0 2) 0 100 False)
                          (robot_at False tank (vec 2 0 2) 0 100 False))) = 99"
proof -
  have a: "\<not> isDead (robot_at True spinner (vec 2 0 2) 0 100 False)"
    and b: "\<not> isDead (robot_at False tank (vec 2 0 2) 0 100 False)"
    and c: "position (robot_at True spinner (vec 2 0 2) 0 100 False)
             = position (robot_at False tank (vec 2 0 2) 0 100 False)"
    by simp_all
  show ?thesis
    using coincident_collision_zero_normal [OF a b c, of 3]
    by simp
qed

text \<open>The normal of such a pair is not a unit vector.\<close>

theorem fallback_normal_counterexample:
  "\<not> isDead (robot_at True spinner (vec 2 0 2) 0 100 False) \<and>
   \<not> isDead (robot_at False tank (vec 2 0 2) 0 100 False) \<and>
   distanceTo (position (robot_at True spinner (vec 2 0 2) 0 100 False))
              (position (robot_at False tank (vec 2 0 2) 0 100 False)) < ROBOT_RADIUS * 2.1 \<and>
   collision_normal (robot_at True spinner (vec 2 0 2) 0 100 False)
                    (robot_at False tank (vec 2 0 2) 0 100 False) = vec 0 0 0 \<and>
   length_v (collision_normal (robot_at True spinner (vec 2 0 2) 0 100 False)
                              (robot_at False tank (vec 2 0 2) 0 100 False)) \<noteq> 1"
  by (simp add: collision_normal_def normalize_zero ROBOT_RADIUS_def)

section \<open>AI steering\<close>

lemma wrap_up_ge: "- pi \<le> wrap_up d"
  by (induction d rule: wrap_up.induct) (subst wrap_up.simps, simp)

lemma wrap_up_shift: "\<exists>k::nat. wrap_up d = d + 2 * pi * real k"
proof (induction d rule: wrap_up.induct)
  case (1 d)
  show ?case
  proof (cases "d < - pi")
    case True
    from 1 [OF True] obtain k :: nat where k: "wrap_up (d + pi * 2) = d + pi * 2 + 2 * pi * real k"
      by blast
    have "wrap_up d = d + 2 * pi * real (Suc k)"
      by (subst wrap_up.simps) (simp add: True k algebra_simps)
    then show ?thesis by blast
  next
    case False
    have "wrap_up d = d + 2 * pi * real (0::nat)"
      by (subst wrap_up.simps) (simp add: False)
    then show ?thesis by blast
  qed
qed

lemma wrap_down_le: "wrap_down d \<le> pi"
  by (induction d rule: wrap_down.induct) (subst wrap_down.simps, simp)

lemma wrap_down_ge: "- pi \<le> d \<Longrightarrow> - pi \<le> wrap_down d"
proof (induction d rule: wrap_down.induct)
  case (1 d)
  show ?case
  proof (cases "pi < d")
    case True
    have "- pi \<le> d - pi * 2" using True by simp
    from 1(1) [OF True this] show ?thesis
      by (subst wrap_down.simps) (simp add: True)
  next
    case False
    then show ?thesis using 1(2) by (subst wrap_down.simps) simp
  qed
qed

lemma wrap_down_shift: "\<exists>k::nat. wrap_down d = d - 2 * pi * real k"
proof (induction d rule: wrap_down.induct)
  case (1 d)
  show ?case
  proof (cases "pi < d")
    case True
    from 1 [OF True] obtain k :: nat where k: "wrap_down (d - pi * 2) = d - pi * 2 - 2 * pi * real k"
      by blast
    have "wrap_down d = d - 2 * pi * real (Suc k)"
      by (subst wrap_down.simps) (simp add: True k algebra_simps)
    then show ?thesis by blast
  next
    case False
    have "wrap_down d = d - 2 * pi * real (0::nat)"
      by (subst wrap_down.simps) (simp add: False)
    then show ?thesis by blast
  qed
qed

lemma wrap_range: "- pi \<le> wrap_down (wrap_up d) \<and> wrap_down (wrap_up d) \<le> pi"
  by (simp add: wrap_down_le wrap_down_ge wrap_up_ge)

lemma wrap_shift: "\<exists>k::int. wrap_down (wrap_up d) = d + 2 * pi * real_of_int k"
proof -
  obtain i :: nat where i: "wrap_up d = d + 2 * pi * real i"
    using wrap_up_shift by blast
  obtain j :: nat where j: "wrap_down (wrap_up d) = wrap_up d - 2 * pi * real j"
    using wrap_down_shift by blast
  have "wrap_down (wrap_up d) = wrap_up d - 2 * pi * real j"
    by (rule j)
  also have "\<dots> = d + 2 * pi * real i - 2 * pi * real j"
    by (simp only: i)
  also have "\<dots> = d + 2 * pi * real_of_int (int i - int j)"
    by (simp add: algebra_simps)
  finally show ?thesis by blast
qed

lemma ai_steer_rotation:
  "rotation (fst (ai_steer rnd n p b)) =
     rotation b + sgn (angle_diff p b) * min \<bar>angle_diff p b\<bar> (TURN_SPEED * 0.3)"
  by (simp add: ai_steer_def Let_def)

lemma ai_steer_velocity:
  "velocity (fst (ai_steer rnd n p b)) =
     (if \<bar>angle_diff p b\<bar> < 0.5
      then add_v (velocity b)
             (multiplyScalar (vec (sin (rotation (fst (ai_steer rnd n p b)))) 0
                                  (cos (rotation (fst (ai_steer rnd n p b)))))
                (MOVE_SPEED * ENEMY_SPEED_MULT))
      else velocity b)"
  by (simp add: ai_steer_def Let_def)

lemma steering_ai:
  "\<not> isPlayer b \<Longrightarrow> stunnedUntil b \<le> now \<Longrightarrow> steering now keys rnd n p b = ai_steer rnd n p b"
  by (simp add: steering_def)

text \<open>
  Claim C6, as amended. For a robot that is not the player and is not stunned, the steering
  of a frame takes the difference \<open>d\<close> between the bearing to the player and the robot's
  heading, brought by the two loops into the closed range from \<open>-pi\<close> to \<open>pi\<close> (the value
  \<open>-pi\<close> is kept as it is) and equal to the raw difference up to a whole number of turns.
  The heading changes by \<open>sgn d * min \<bar>d\<bar> (TURN_SPEED * 0.3)\<close>: toward the player, by at
  most 30% of the player's turn rate, and never past \<open>d\<close>. The thrust
  \<open>MOVE_SPEED * ENEMY_SPEED_MULT\<close> along the new heading is added to the velocity exactly
  when \<open>\<bar>d\<bar> < 0.5\<close>.
\<close>

theorem ai_turn_and_thrust:
  assumes "\<not> isPlayer b" and "stunnedUntil b \<le> now"
  shows "(let d = angle_diff p b; b' = fst (steering now keys rnd n p b) in
           - pi \<le> d \<and> d \<le> pi \<and>
           (\<exists>k::int. d = angleToPlayer p b - rotation b + 2 * pi * real_of_int k) \<and>
           rotation b' = rotation b + sgn d * min \<bar>d\<bar> (TURN_SPEED * 0.3) \<and>
           \<bar>rotation b' - rotation b\<bar> \<le> TURN_SPEED * 0.3 \<and>
           \<bar>rotation b' - rotation b\<bar> \<le> \<bar>d\<bar> \<and>
           0 \<le> (rotation b' - rotation b) * d \<and>
           velocity b' =
             (if \<bar>d\<bar> < 0.5
              then add_v (velocity b)
                     (multiplyScalar (vec (sin (rotation b')) 0 (cos (rotation b')))
                        (MOVE_SPEED * ENEMY_SPEED_MULT))
              else velocity b))"
proof -
  define d where "d = angle_diff p b"
  define b' where "b' = fst (steering now keys rnd n p b)"
  have st: "b' = fst (ai_steer rnd n p b)"
    unfolding b'_def using assms by (simp add: steering_ai)
  have range: "- pi \<le> d \<and> d \<le> pi"
    unfolding d_def angle_diff_def by (rule wrap_range)
  have cong: "\<exists>k::int. d = angleToPlayer p b - rotation b + 2 * pi * real_of_int k"
    unfolding d_def angle_diff_def by (rule wrap_shift)
  have rot: "rotation b' = rotation b + sgn d * min \<bar>d\<bar> (TURN_SPEED * 0.3)"
    unfolding st d_def by (rule ai_steer_rotation)
  have step: "rotation b' - rotation b = sgn d * min \<bar>d\<bar> (TURN_SPEED * 0.3)"
    using rot by simp
  have t: "0 < TURN_SPEED * 0.3" by (simp add: TURN_SPEED_def)
  have b1: "\<bar>rotation b' - rotation b\<bar> \<le> TURN_SPEED * 0.3"
    unfolding step using t by (auto simp: sgn_real_def abs_mult)
  have b2: "\<bar>rotation b' - rotation b\<bar> \<le> \<bar>d\<bar>"
    unfolding step using t by (auto simp: sgn_real_def abs_mult)
  have b3: "0 \<le> (rotation b' - rotation b) * d"
    unfolding step using t by (auto simp: sgn_real_def min_def mult_nonpos_nonpos)
  have vel: "velocity b' =
             (if \<bar>d\<bar> < 0.5
              then add_v (velocity b)
                     (multiplyScalar (vec (sin (rotation b')) 0 (cos (rotation b')))
                        (MOVE_SPEED * ENEMY_SPEED_MULT))
              else velocity b)"
    unfolding st d_def by (rule ai_steer_velocity)
  show ?thesis
    unfolding Let_def d_def [symmetric] b'_def [symmetric]
    using range cong rot b1 b2 b3 vel by blast
qed

lemma wrap_id: "- pi \<le> d \<Longrightarrow> d \<le> pi \<Longrightarrow> wrap_down (wrap_up d) = d"
  by (subst wrap_up.simps, simp, subst wrap_down.simps, simp)

lemma angleToPlayer_ahead: "0 < c \<Longrightarrow> angleToPlayer (vec 0 0 0) (robot_at pl ty (vec 0 0 (- c)) rot h a) = 0"
  by (simp add: angleToPlayer_def normalize_v_def length_v_def divideScalar_def atan2_def Let_def)

theorem ai_turn_and_thrust_witness:
  "\<not> isPlayer (robot_at False tank (vec 0 0 (- 2)) (1 / 4) 100 False) \<and>
   stunnedUntil (robot_at False tank (vec 0 0 (- 2)) (1 / 4) 100 False) \<le> 1 \<and>
   angle_diff (vec 0 0 0) (robot_at False tank (vec 0 0 (- 2)) (1 / 4) 100 False) = - (1 / 4) \<and>
   rotation (fst (steering 1 no_keys no_draw 0 (vec 0 0 0)
                    (robot_at False tank (vec 0 0 (- 2)) (1 / 4) 100 False))) = 113 / 500 \<and>
   velocity (fst (steering 1 no_keys no_draw 0 (vec 0 0 0)
                    (robot_at False tank (vec 0 0 (- 2)) (1 / 4) 100 False)))
     = add_v (vec 0 0 0)
         (multiplyScalar (vec (sin (113 / 500)) 0 (cos (113 / 500)))
            (MOVE_SPEED * ENEMY_SPEED_MULT))"
proof -
  have a: "\<not> isPlayer (robot_at False tank (vec 0 0 (- 2)) (1 / 4) 100 False)"
    and b: "stunnedUntil (robot_at False tank (vec 0 0 (- 2)) (1 / 4) 100 False) \<le> 1"
    by simp_all
  have p: "- pi \<le> - (1 / 4)" "- (1 / 4) \<le> pi"
    using pi_ge_two by simp_all
  have d: "angle_diff (vec 0 0 0) (robot_at False tank (vec 0 0 (- 2)) (1 / 4) 100 False) = - (1 / 4)"
    unfolding angle_diff_def using wrap_id [OF p] by (simp add: angleToPlayer_ahead)
  note t = ai_turn_and_thrust [OF a b, of "vec 0 0 0" no_keys no_draw 0, unfolded Let_def d]
  from t have "rotation (fst (steering 1 no_keys no_draw 0 (vec 0 0 0)
                    (robot_at False tank (vec 0 0 (- 2)) (1 / 4) 100 False)))
      = rotation (robot_at False tank (vec 0 0 (- 2)) (1 / 4) 100 False)
          + sgn (- (1 / 4)) * min \<bar>- (1 / 4)\<bar> (TURN_SPEED * 0.3)"
    by blast
  then have rot: "rotation (fst (steering 1 no_keys no_draw 0 (vec 0 0 0)
                    (robot_at False tank (vec 0 0 (- 2)) (1 / 4) 100 False))) = 113 / 500"
    by (simp add: TURN_SPEED_def)
  from t have "velocity (fst (steering 1 no_keys no_draw 0 (vec 0 0 0)
                    (robot_at False tank (vec 0 0 (- 2)) (1 / 4) 100 False)))
      = (if \<bar>- (1 / 4)\<bar> < (0.5::real)
         then add_v (velocity (robot_at False tank (vec 0 0 (- 2)) (1 / 4) 100 False))
                (multiplyScalar
                   (vec (sin (rotation (fst (steering 1 no_keys no_draw 0 (vec 0 0 0)
                            (robot_at False tank (vec 0 0 (- 2)) (1 / 4) 100 False))))) 0
                        (cos (rotation (fst (steering 1 no_keys no_draw 0 (vec 0 0 0)
                            (robot_at False tank (vec 0 0 (- 2)) (1 / 4) 100 False))))))
                   (MOVE_SPEED * ENEMY_SPEED_MULT))
         else velocity (robot_at False tank (vec 0 0 (- 2)) (1 / 4) 100 False))"
    by blast
  then have vel: "velocity (fst (steering 1 no_keys no_draw 0 (vec 0 0 0)
                    (robot_at False tank (vec 0 0 (- 2)) (1 / 4) 100 False)))
     = add_v (vec 0 0 0)
         (multiplyScalar (vec (sin (113 / 500)) 0 (cos (113 / 500)))
            (MOVE_SPEED * ENEMY_SPEED_MULT))"
    unfolding rot by simp
  show ?thesis
    using a b d rot vel by blast
qed

text \<open>
  The difference is not always above \<open>-pi\<close>: a robot two units behind the player on the
  \<open>z\<close> axis with heading \<open>pi\<close> has bearing 0 and difference exactly \<open>-pi\<close>.
\<close>

theorem wrap_interval_counterexample:
  "\<not> isPlayer (robot_at False tank (vec 0 0 (- 2)) pi 100 False) \<and>
   stunnedUntil (robot_at False tank (vec 0 0 (- 2)) pi 100 False) \<le> 1 \<and>
   angle_diff (vec 0 0 0) (robot_at False tank (vec 0 0 (- 2)) pi 100 False) = - pi \<and>
   \<not> (- pi < angle_diff (vec 0 0 0) (robot_at False tank (vec 0 0 (- 2)) pi 100 False))"
proof -
  have "angle_diff (vec 0 0 0) (robot_at False tank (vec 0 0 (- 2)) pi 100 False) = - pi"
    unfolding angle_diff_def using wrap_id [of "- pi"] by (simp add: angleToPlayer_ahead)
  then show ?thesis by simp
qed

section \<open>Health and death across a frame\<close>

lemma evolves_refl: "evolves r r"
  by (simp add: evolves_def)

lemma evolves_trans: "evolves a b \<Longrightarrow> evolves b c \<Longrightarrow> evolves a c"
  by (auto simp: evolves_def)

lemma player_steer_sel [simp]:
  "health (player_steer keys c) = health c" "maxHealth (player_steer keys c) = maxHealth c"
  "isDead (player_steer keys c) = isDead c" "position (player_steer keys c) = position c"
  "isPlayer (player_steer keys c) = isPlayer c" "stunnedUntil (player_steer keys c) = stunnedUntil c"
  by (simp_all add: player_steer_def Let_def)

lemma ai_steer_sel [simp]:
  "health (fst (ai_steer rnd n p c)) = health c" "maxHealth (fst (ai_steer rnd n p c)) = maxHealth c"
  "isDead (fst (ai_steer rnd n p c)) = isDead c" "position (fst (ai_steer rnd n p c)) = position c"
  "isPlayer (fst (ai_steer rnd n p c)) = isPlayer c"
  "stunnedUntil (fst (ai_steer rnd n p c)) = stunnedUntil c"
  by (simp_all add: ai_steer_def Let_def)

lemma steering_sel [simp]:
  "health (fst (steering now keys rnd n p c)) = health c"
  "maxHealth (fst (steering now keys rnd n p c)) = maxHealth c"
  "isDead (fst (steering now keys rnd n p c)) = isDead c"
  "position (fst (steering now keys rnd n p c)) = position c"
  "isPlayer (fst (steering now keys rnd n p c)) = isPlayer c"
  "stunnedUntil (fst (steering now keys rnd n p c)) = stunnedUntil c"
  by (simp_all add: steering_def)

lemma move_bot_dead: "isDead b \<Longrightarrow> move_bot now keys rnd n p b = (b, n)"
  by (simp add: move_bot_def)

lemma move_bot_alive:
  "\<not> isDead b \<Longrightarrow>
   fst (move_bot now keys rnd n p b) = pit (walls (integrate (fst (steering now keys rnd n p b))))"
  by (simp add: move_bot_def split: prod.splits)

lemma move_bot_evolves: "evolves b (fst (move_bot now keys rnd n p b))"
proof (cases "isDead b")
  case True
  then show ?thesis by (simp add: move_bot_dead evolves_refl)
next
  case False
  then show ?thesis by (simp add: move_bot_alive evolves_def)
qed

lemma move_bot_pit:
  assumes "\<not> isDead b" and "out_of_bounds (fst (move_bot now keys rnd n p b))"
  shows "isDead (fst (move_bot now keys rnd n p b)) \<and> health (fst (move_bot now keys rnd n p b)) = 0"
proof -
  define c where "c = walls (integrate (fst (steering now keys rnd n p b)))"
  have m: "fst (move_bot now keys rnd n p b) = pit c"
    unfolding c_def using assms(1) by (rule move_bot_alive)
  have "out_of_bounds c"
    using assms(2) unfolding m by (simp add: out_of_bounds_def)
  then show ?thesis unfolding m by simp
qed

lemma collide_evolves:
  "evolves r1 (fst (collide now r1 r2))" "evolves r2 (snd (collide now r1 r2))"
proof -
  have "evolves r1 (fst (collide now r1 r2)) \<and> evolves r2 (snd (collide now r1 r2))"
  proof (cases "in_contact r1 r2")
    case True
    then have alive: "\<not> isDead r1" "\<not> isDead r2" by (simp_all add: in_contact_def)
    show ?thesis
      using alive
      by (simp add: collide_hit [OF True] Let_def evolves_def WEAPON_DAMAGE_def)
  next
    case False
    then show ?thesis by (simp add: collide_miss evolves_refl)
  qed
  then show "evolves r1 (fst (collide now r1 r2))" "evolves r2 (snd (collide now r1 r2))"
    by simp_all
qed

subsection \<open>Lists of robots\<close>

lemma list_all2_evolves_refl: "list_all2 evolves xs xs"
  by (simp add: list_all2_refl evolves_refl)

lemma list_all2_evolves_trans:
  "list_all2 evolves xs ys \<Longrightarrow> list_all2 evolves ys zs \<Longrightarrow> list_all2 evolves xs zs"
  by (rule list_all2_trans [of evolves evolves evolves]) (auto intro: evolves_trans)

lemma list_all2_evolves_update:
  "(i < length xs \<Longrightarrow> evolves (xs ! i) r) \<Longrightarrow> list_all2 evolves xs (xs[i := r])"
proof -
  assume a: "i < length xs \<Longrightarrow> evolves (xs ! i) r"
  have "k < length xs \<Longrightarrow> evolves (xs ! k) (xs[i := r] ! k)" for k
    using a by (cases "k = i") (simp_all add: evolves_refl)
  then show ?thesis by (simp add: list_all2_conv_all_nth)
qed

lemma foldl_evolves:
  assumes "\<And>s a. list_all2 evolves (g s) (g (f s a))"
  shows "list_all2 evolves (g s) (g (foldl f s as))"
proof (induction as arbitrary: s)
  case Nil
  show ?case by (simp add: list_all2_evolves_refl)
next
  case (Cons a as)
  have "list_all2 evolves (g s) (g (f s a))" by (rule assms)
  moreover have "list_all2 evolves (g (f s a)) (g (foldl f (f s a) as))" by (rule Cons.IH)
  ultimately show ?case by (simp add: list_all2_evolves_trans)
qed

lemma movement_step_evolves:
  "list_all2 evolves (fst s) (fst (movement_step now keys rnd pidx s i))"
proof -
  obtain xs n where s: "s = (xs, n)" by (cases s)
  have "evolves (xs ! i) (fst (move_bot now keys rnd n (position (xs ! pidx)) (xs ! i)))"
    by (rule move_bot_evolves)
  then show ?thesis
    by (simp add: s movement_step_def case_prod_unfold list_all2_evolves_update)
qed

lemma movement_evolves: "list_all2 evolves xs (fst (movement now keys rnd pidx xs))"
  unfolding movement_def
  using foldl_evolves [of fst "movement_step now keys rnd pidx" "(xs, 0)" "[0..<length xs]"]
  by (simp add: movement_step_evolves)

lemma collide_at_evolves: "list_all2 evolves xs (collide_at now xs ij)"
proof -
  obtain i j where ij: "ij = (i, j)" by (cases ij)
  define r1 where "r1 = fst (collide now (xs ! i) (xs ! j))"
  define r2 where "r2 = snd (collide now (xs ! i) (xs ! j))"
  have c: "collide_at now xs ij = xs[i := r1, j := r2]"
    by (simp add: ij collide_at_def r1_def r2_def case_prod_unfold)
  have e1: "evolves (xs ! i) r1" and e2: "evolves (xs ! j) r2"
    unfolding r1_def r2_def by (rule collide_evolves)+
  have f: "evolves (xs ! j) (snd (collide now (xs ! j) (xs ! j)))"
    by (rule collide_evolves)
  have "k < length xs \<Longrightarrow> evolves (xs ! k) (xs[i := r1, j := r2] ! k)" for k
    using e1 e2 f by (cases "k = j"; cases "k = i") (simp_all add: evolves_refl r2_def)
  then show ?thesis
    unfolding c by (simp add: list_all2_conv_all_nth)
qed

lemma collisions_evolves: "list_all2 evolves xs (collisions now xs)"
  unfolding collisions_def
  using foldl_evolves [of "\<lambda>s. s" "collide_at now" xs "pairs (length xs)"]
  by (simp add: collide_at_evolves)

lemma decay_step_evolves: "list_all2 evolves (fst s) (fst (decay_step rnd s i))"
proof -
  obtain xs n where s: "s = (xs, n)" by (cases s)
  have "evolves (xs ! i) ((xs ! i)\<lparr>weaponActive := False\<rparr>)"
    by (simp add: evolves_def)
  then show ?thesis
    by (simp add: s decay_step_def list_all2_evolves_update list_all2_evolves_refl)
qed

lemma decay_evolves: "list_all2 evolves xs (fst (decay rnd n xs))"
  unfolding decay_def
  using foldl_evolves [of fst "decay_step rnd" "(xs, n)" "[0..<length xs]"]
  by (simp add: decay_step_evolves)

lemma frame_body_evolves: "list_all2 evolves xs (frame_body now keys rnd pidx xs)"
proof -
  obtain rs1 n1 where m: "movement now keys rnd pidx xs = (rs1, n1)"
    by (cases "movement now keys rnd pidx xs")
  have a: "list_all2 evolves xs rs1"
    using movement_evolves [of xs now keys rnd pidx] by (simp add: m)
  have b: "list_all2 evolves rs1 (collisions now rs1)" by (rule collisions_evolves)
  have c: "list_all2 evolves (collisions now rs1) (fst (decay rnd n1 (collisions now rs1)))"
    by (rule decay_evolves)
  show ?thesis
    unfolding frame_body_def m
    using a b c by (auto intro: list_all2_evolves_trans)
qed

lemma tick_evolves: "list_all2 evolves (snd s) (snd (tick now keys rnd s))"
  by (cases s) (simp add: tick_def list_all2_evolves_refl frame_body_evolves split: option.splits)

lemma run_ticks_evolves: "list_all2 evolves (snd s) (snd (run_ticks inputs s))"
  unfolding run_ticks_def
  by (rule foldl_evolves) (simp add: case_prod_unfold tick_evolves)

lemma evolves_nth:
  "list_all2 evolves xs ys \<Longrightarrow> k < length xs \<Longrightarrow> evolves (xs ! k) (ys ! k)"
  by (simp add: list_all2_conv_all_nth)

lemma evolves_range:
  assumes "evolves r r'" and "0 \<le> health r" and "health r \<le> maxHealth r"
  shows "0 \<le> health r' \<and> health r' \<le> maxHealth r' \<and> maxHealth r' = maxHealth r"
  using assms by (auto simp: evolves_def)

lemma initialRobots_health:
  "r \<in> set initialRobots \<Longrightarrow> health r = 100 \<and> maxHealth r = 100"
  by (auto simp: initialRobots_def enemy_def MAX_ROBOT_HEALTH_def Let_def)

lemma length_initialRobots: "length initialRobots = 4"
  by (simp add: initialRobots_def ENEMY_COUNT_def)

lemma length_run_ticks: "length (snd (run_ticks inputs s)) = length (snd s)"
  using run_ticks_evolves [of s inputs] by (simp add: list_all2_lengthD)

lemma length_tick: "length (snd (tick now keys rnd s)) = length (snd s)"
  using tick_evolves [of s now keys rnd] by (simp add: list_all2_lengthD)

text \<open>
  Claim C2. In every state that a match reaches from \<open>initGame\<close> by any number of frames,
  whatever their inputs, the health of every robot is at least 0 and at most its
  \<open>maxHealth\<close>, which is still the 100 it was created with. One frame at a time: a robot
  whose health is within that range before a frame has it within the range after the
  frame, with the same \<open>maxHealth\<close>.
\<close>

theorem health_stays_in_range:
  "(r \<in> set (snd (run_ticks inputs initGame)) \<longrightarrow>
      0 \<le> health r \<and> health r \<le> maxHealth r \<and> maxHealth r = 100) \<and>
   (k < length rs \<and> 0 \<le> health (rs ! k) \<and> health (rs ! k) \<le> maxHealth (rs ! k) \<longrightarrow>
      (let r' = snd (tick now keys rnd (gs, rs)) ! k
       in 0 \<le> health r' \<and> health r' \<le> maxHealth r' \<and> maxHealth r' = maxHealth (rs ! k)))"
proof -
  have a: "0 \<le> health r \<and> health r \<le> maxHealth r \<and> maxHealth r = 100"
    if "r \<in> set (snd (run_ticks inputs initGame))"
  proof -
    from that obtain i where i: "i < length (snd (run_ticks inputs initGame))"
      and r: "r = snd (run_ticks inputs initGame) ! i"
      by (auto simp: in_set_conv_nth)
    have len: "i < length initialRobots"
      using i by (simp add: length_run_ticks initGame_def)
    have e: "evolves (initialRobots ! i) r"
      unfolding r
      using evolves_nth [OF run_ticks_evolves [of initGame inputs]] len
      by (simp add: initGame_def)
    have h: "health (initialRobots ! i) = 100 \<and> maxHealth (initialRobots ! i) = 100"
      using len by (simp add: initialRobots_health)
    show ?thesis
      using evolves_range [OF e] h by simp
  qed
  have b: "0 \<le> health (snd (tick now keys rnd (gs, rs)) ! k) \<and>
           health (snd (tick now keys rnd (gs, rs)) ! k) \<le> maxHealth (snd (tick now keys rnd (gs, rs)) ! k) \<and>
           maxHealth (snd (tick now keys rnd (gs, rs)) ! k) = maxHealth (rs ! k)"
    if "k < length rs" and "0 \<le> health (rs ! k)" and "health (rs ! k) \<le> maxHealth (rs ! k)"
  proof -
    have e: "evolves (rs ! k) (snd (tick now keys rnd (gs, rs)) ! k)"
      using evolves_nth [OF tick_evolves [of "(gs, rs)" now keys rnd]] that(1) by simp
    show ?thesis
      using evolves_range [OF e that(2,3)] by simp
  qed
  show ?thesis
    unfolding Let_def using a b by blast
qed

theorem health_stays_in_range_witness:
  "snd (run_ticks [(1, no_keys, no_draw), (2, no_keys, no_draw)] initGame) ! 1
     \<in> set (snd (run_ticks [(1, no_keys, no_draw), (2, no_keys, no_draw)] initGame)) \<and>
   0 \<le> health (snd (run_ticks [(1, no_keys, no_draw), (2, no_keys, no_draw)] initGame) ! 1) \<and>
   health (snd (run_ticks [(1, no_keys, no_draw), (2, no_keys, no_draw)] initGame) ! 1) \<le> 100 \<and>
   (1::nat) < length initialRobots \<and>
   0 \<le> health (initialRobots ! 1) \<and> health (initialRobots ! 1) \<le> maxHealth (initialRobots ! 1) \<and>
   0 \<le> health (snd (tick 1 no_keys no_draw (PLAYING, initialRobots)) ! 1) \<and>
   health (snd (tick 1 no_keys no_draw (PLAYING, initialRobots)) ! 1) \<le> 100"
proof -
  have m: "snd (run_ticks [(1, no_keys, no_draw), (2, no_keys, no_draw)] initGame) ! 1
     \<in> set (snd (run_ticks [(1, no_keys, no_draw), (2, no_keys, no_draw)] initGame))"
    by (rule nth_mem) (simp add: length_run_ticks initGame_def length_initialRobots)
  have l: "(1::nat) < length initialRobots"
    by (simp add: length_initialRobots)
  have h: "health (initialRobots ! 1) = 100 \<and> maxHealth (initialRobots ! 1) = 100"
    using l by (simp add: initialRobots_health)
  show ?thesis
    using m l h
      health_stays_in_range [of "snd (run_ticks [(1, no_keys, no_draw), (2, no_keys, no_draw)] initGame) ! 1"
        "[(1, no_keys, no_draw), (2, no_keys, no_draw)]" 1 initialRobots 1 no_keys no_draw PLAYING]
    by (simp add: Let_def)
qed

text \<open>
  Claim C10. A frame never raises the health of a robot: for a robot whose health is not
  negative (as it is in every state of a match), the health after the frame is at most
  the health before it.
\<close>

theorem health_never_increases:
  "k < length rs \<Longrightarrow> 0 \<le> health (rs ! k) \<Longrightarrow>
   health (snd (tick now keys rnd (gs, rs)) ! k) \<le> health (rs ! k)"
proof -
  assume k: "k < length rs" and h: "0 \<le> health (rs ! k)"
  have "evolves (rs ! k) (snd (tick now keys rnd (gs, rs)) ! k)"
    using evolves_nth [OF tick_evolves [of "(gs, rs)" now keys rnd]] k by simp
  then show ?thesis
    using h by (simp add: evolves_def)
qed

theorem health_never_increases_witness:
  "(1::nat) < length [robot_at True spinner (vec 0 0 0) 0 100 True,
                      robot_at False tank (vec 1 0 0) 0 100 False] \<and>
   0 \<le> health ([robot_at True spinner (vec 0 0 0) 0 100 True,
                  robot_at False tank (vec 1 0 0) 0 100 False] ! 1) \<and>
   health (snd (tick 1 no_keys no_draw
                  (PLAYING, [robot_at True spinner (vec 0 0 0) 0 100 True,
                             robot_at False tank (vec 1 0 0) 0 100 False])) ! 1) \<le> 100"
proof -
  have l: "(1::nat) < length [robot_at True spinner (vec 0 0 0) 0 100 True,
                              robot_at False tank (vec 1 0 0) 0 100 False]"
    by simp
  have h: "0 \<le> health ([robot_at True spinner (vec 0 0 0) 0 100 True,
                          robot_at False tank (vec 1 0 0) 0 100 False] ! 1)"
    by simp
  show ?thesis
    using l h health_never_increases [OF l h, of 1 no_keys no_draw PLAYING]
    by simp
qed

section \<open>The movement pass, robot by robot\<close>

lemma movement_step_fst:
  "fst (movement_step now keys rnd pidx (xs, n) i)
     = xs[i := fst (move_bot now keys rnd n (position (xs ! pidx)) (xs ! i))]"
  by (simp add: movement_step_def case_prod_unfold)

text \<open>
  After the first \<open>m\<close> robots have been visited, each of them is the result of
  \<open>move_bot\<close> on what it was, and the others are as they were.
\<close>

lemma movement_prefix:
  "m \<le> length xs \<Longrightarrow>
   length (fst (foldl (movement_step now keys rnd pidx) (xs, 0) [0..<m])) = length xs \<and>
   (\<forall>k<m. \<exists>n p. fst (foldl (movement_step now keys rnd pidx) (xs, 0) [0..<m]) ! k
                     = fst (move_bot now keys rnd n p (xs ! k))) \<and>
   (\<forall>k. m \<le> k \<longrightarrow> fst (foldl (movement_step now keys rnd pidx) (xs, 0) [0..<m]) ! k = xs ! k)"
proof (induction m)
  case 0
  show ?case by simp
next
  case (Suc m)
  obtain ys c where st: "foldl (movement_step now keys rnd pidx) (xs, 0) [0..<m] = (ys, c)"
    by (cases "foldl (movement_step now keys rnd pidx) (xs, 0) [0..<m]")
  from Suc have m: "m < length xs" and len: "length ys = length xs"
    and visited: "\<forall>k<m. \<exists>n p. ys ! k = fst (move_bot now keys rnd n p (xs ! k))"
    and rest: "\<forall>k. m \<le> k \<longrightarrow> ys ! k = xs ! k"
    by (simp_all add: st)
  define b where "b = fst (move_bot now keys rnd c (position (ys ! pidx)) (ys ! m))"
  have nxt: "fst (foldl (movement_step now keys rnd pidx) (xs, 0) [0..<Suc m]) = ys[m := b]"
    by (simp add: st movement_step_fst b_def)
  have bm: "b = fst (move_bot now keys rnd c (position (ys ! pidx)) (xs ! m))"
    unfolding b_def using rest by simp
  have "\<exists>n p. ys[m := b] ! k = fst (move_bot now keys rnd n p (xs ! k))" if "k < Suc m" for k
  proof (cases "k = m")
    case True
    then show ?thesis using m len bm by auto
  next
    case False
    then have "k < m" using that by simp
    then show ?thesis using visited False by simp
  qed
  moreover have "ys[m := b] ! k = xs ! k" if "Suc m \<le> k" for k
    using that rest by simp
  ultimately show ?case
    unfolding nxt using len by simp
qed

lemma movement_nth:
  "k < length xs \<Longrightarrow>
   \<exists>n p. fst (movement now keys rnd pidx xs) ! k = fst (move_bot now keys rnd n p (xs ! k))"
  unfolding movement_def using movement_prefix [of "length xs" xs now keys rnd pidx] by simp

lemma length_movement: "length (fst (movement now keys rnd pidx xs)) = length xs"
  unfolding movement_def using movement_prefix [of "length xs" xs now keys rnd pidx] by simp

lemma frame_body_after_movement:
  "list_all2 evolves (fst (movement now keys rnd pidx xs)) (frame_body now keys rnd pidx xs)"
proof -
  obtain rs1 n1 where m: "movement now keys rnd pidx xs = (rs1, n1)"
    by (cases "movement now keys rnd pidx xs")
  have b: "list_all2 evolves rs1 (collisions now rs1)" by (rule collisions_evolves)
  have c: "list_all2 evolves (collisions now rs1) (fst (decay rnd n1 (collisions now rs1)))"
    by (rule decay_evolves)
  show ?thesis
    unfolding frame_body_def m
    using b c by (auto intro: list_all2_evolves_trans)
qed

lemma tick_running:
  assumes "findIndex isPlayer rs = Some pidx" and "\<not> isDead (rs ! pidx)"
    and "\<exists>r\<in>set rs. \<not> isPlayer r \<and> \<not> isDead r"
  shows "tick now keys rnd (PLAYING, rs) = (PLAYING, frame_body now keys rnd pidx rs)"
proof -
  have "filter (\<lambda>r. \<not> isPlayer r \<and> \<not> isDead r) rs \<noteq> []"
    using assms(3) by (simp add: filter_empty_conv)
  then show ?thesis
    using assms(1,2) by (simp add: tick_def)
qed

text \<open>
  Claim C3. Take a robot that is not dead at the start of a frame. If the position it has
  after the movement pass (its integration and wall resolution; the pit check leaves the
  position alone) lies beyond \<open>H + 0.5\<close> on either axis, then the pass has marked it dead
  with health 0, whatever its health was and whether or not it is stunned, and it is
  still dead with health 0 in the collection the frame produces.
\<close>

theorem pit_death:
  assumes "k < length rs" and "\<not> isDead (rs ! k)"
    and "halfSize + 0.5 < \<bar>x (position (fst (movement now keys rnd pidx rs) ! k))\<bar> \<or>
         halfSize + 0.5 < \<bar>z (position (fst (movement now keys rnd pidx rs) ! k))\<bar>"
  shows "isDead (fst (movement now keys rnd pidx rs) ! k) \<and>
         health (fst (movement now keys rnd pidx rs) ! k) = 0 \<and>
         isDead (frame_body now keys rnd pidx rs ! k) \<and>
         health (frame_body now keys rnd pidx rs ! k) = 0 \<and>
         (findIndex isPlayer rs = Some pidx \<and> \<not> isDead (rs ! pidx) \<and>
          (\<exists>r\<in>set rs. \<not> isPlayer r \<and> \<not> isDead r) \<longrightarrow>
            isDead (snd (tick now keys rnd (PLAYING, rs)) ! k) \<and>
            health (snd (tick now keys rnd (PLAYING, rs)) ! k) = 0)"
proof -
  define m where "m = fst (movement now keys rnd pidx rs) ! k"
  obtain n p where mb: "m = fst (move_bot now keys rnd n p (rs ! k))"
    unfolding m_def using movement_nth [OF assms(1)] by blast
  have oob: "out_of_bounds m"
    using assms(3) by (simp add: out_of_bounds_def m_def)
  have dead: "isDead m \<and> health m = 0"
    using move_bot_pit [OF assms(2), of now keys rnd n p] oob unfolding mb by simp
  have "evolves m (frame_body now keys rnd pidx rs ! k)"
    unfolding m_def
    using evolves_nth [OF frame_body_after_movement] assms(1) by (simp add: length_movement)
  then have final: "isDead (frame_body now keys rnd pidx rs ! k) \<and>
      health (frame_body now keys rnd pidx rs ! k) = 0"
    using dead by (simp add: evolves_def)
  show ?thesis
    using dead final by (auto simp: m_def [symmetric] tick_running)
qed

lemma steering_stunned: "now < stunnedUntil b \<Longrightarrow> steering now keys rnd n p b = (b, n)"
  by (simp add: steering_def)

lemma move_bot_stunned:
  "\<not> isDead b \<Longrightarrow> now < stunnedUntil b \<Longrightarrow>
   fst (move_bot now keys rnd n p b) = pit (walls (integrate b))"
  by (simp add: move_bot_alive steering_stunned)

lemma pit_example_sel [simp]:
  "position pit_example = vec 11 0 9" "velocity pit_example = vec 1 0 0"
  "stunnedUntil pit_example = 5" "isDead pit_example = False" "isPlayer pit_example = False"
  by (simp_all add: pit_example_def)

theorem pit_death_witness:
  "(1::nat) < length [robot_at True spinner (vec 0 0 0) 0 100 False, pit_example] \<and>
   \<not> isDead ([robot_at True spinner (vec 0 0 0) 0 100 False, pit_example] ! 1) \<and>
   x (position (fst (movement 1 no_keys no_draw 0
        [robot_at True spinner (vec 0 0 0) 0 100 False, pit_example]) ! 1)) = 12 \<and>
   halfSize + 0.5 < \<bar>x (position (fst (movement 1 no_keys no_draw 0
        [robot_at True spinner (vec 0 0 0) 0 100 False, pit_example]) ! 1))\<bar> \<and>
   isDead (frame_body 1 no_keys no_draw 0
        [robot_at True spinner (vec 0 0 0) 0 100 False, pit_example] ! 1) \<and>
   health (frame_body 1 no_keys no_draw 0
        [robot_at True spinner (vec 0 0 0) 0 100 False, pit_example] ! 1) = 0 \<and>
   isDead (snd (tick 1 no_keys no_draw
        (PLAYING, [robot_at True spinner (vec 0 0 0) 0 100 False, pit_example])) ! 1) \<and>
   health (snd (tick 1 no_keys no_draw
        (PLAYING, [robot_at True spinner (vec 0 0 0) 0 100 False, pit_example])) ! 1) = 0"
proof -
  define scene where "scene = [robot_at True spinner (vec 0 0 0) 0 100 False, pit_example]"
  have l: "(1::nat) < length scene" and a: "\<not> isDead (scene ! 1)"
    by (simp_all add: scene_def)
  obtain n p where "fst (movement 1 no_keys no_draw 0 scene) ! 1
      = fst (move_bot 1 no_keys no_draw n p (scene ! 1))"
    using movement_nth [OF l] by blast
  then have m: "fst (movement 1 no_keys no_draw 0 scene) ! 1 = pit (walls (integrate pit_example))"
    by (simp add: scene_def move_bot_stunned)
  have px: "x (position (fst (movement 1 no_keys no_draw 0 scene) ! 1)) = 12"
    unfolding m by (simp add: walls_pos_x)
  have o: "halfSize + 0.5 < \<bar>x (position (fst (movement 1 no_keys no_draw 0 scene) ! 1))\<bar> \<or>
           halfSize + 0.5 < \<bar>z (position (fst (movement 1 no_keys no_draw 0 scene) ! 1))\<bar>"
    unfolding px by (simp add: arena_numbers)
  have f: "findIndex isPlayer scene = Some 0 \<and> \<not> isDead (scene ! 0) \<and>
           (\<exists>r\<in>set scene. \<not> isPlayer r \<and> \<not> isDead r)"
    by (simp add: scene_def)
  show ?thesis
    using l a px f pit_death [OF l a o]
    unfolding scene_def by (simp add: arena_numbers)
qed

section \<open>A robot at rest\<close>

lemma player_steer_velocity:
  "\<not> pressed keys ''ArrowUp'' \<Longrightarrow> \<not> pressed keys ''KeyW'' \<Longrightarrow>
   \<not> pressed keys ''ArrowDown'' \<Longrightarrow> \<not> pressed keys ''KeyS'' \<Longrightarrow>
   velocity (player_steer keys b) = velocity b"
  by (simp add: player_steer_def Let_def)

lemma steering_no_thrust:
  "\<not> isDead b \<Longrightarrow> no_thrust now keys b \<Longrightarrow>
   velocity (fst (steering now keys rnd n p b)) = velocity b"
  by (auto simp: no_thrust_def steering_def player_steer_velocity)

lemma add_zero_right [simp]: "add_v p (vec 0 0 0) = p"
  by (simp add: vec_eq_iff)

lemma walls_no_clamp: "\<not> wall_clamp_applies c \<Longrightarrow> position (walls c) = position c"
proof -
  assume a: "\<not> wall_clamp_applies c"
  have px: "x (position (walls c)) = x (position c)"
    using a unfolding walls_pos_x wall_clamp_applies_def arena_numbers by auto
  have pz: "z (position (walls c)) = z (position c)"
    using a unfolding walls_pos_z px unfolding wall_clamp_applies_def arena_numbers by auto
  show ?thesis
    by (simp add: vec_eq_iff px pz)
qed

lemma wall_clamp_applies_cong:
  "position c = position b \<Longrightarrow> wall_clamp_applies c = wall_clamp_applies b"
  by (simp add: wall_clamp_applies_def)

lemma move_bot_still:
  assumes "velocity b = vec 0 0 0" and "no_thrust now keys b" and "\<not> wall_clamp_applies b"
  shows "position (fst (move_bot now keys rnd n p b)) = position b"
proof (cases "isDead b")
  case True
  then show ?thesis by (simp add: move_bot_dead)
next
  case False
  define c where "c = integrate (fst (steering now keys rnd n p b))"
  have v: "velocity (fst (steering now keys rnd n p b)) = vec 0 0 0"
    using steering_no_thrust [OF False assms(2)] assms(1) by simp
  have pc: "position c = position b"
    unfolding c_def by (simp add: v)
  have "\<not> wall_clamp_applies c"
    using assms(3) wall_clamp_applies_cong [OF pc] by simp
  then have "position (walls c) = position b"
    using pc by (simp add: walls_no_clamp)
  then show ?thesis
    by (simp add: move_bot_alive [OF False] c_def)
qed

subsection \<open>The collision pass for a robot out of contact\<close>

lemma collide_at_other:
  "k \<noteq> i \<Longrightarrow> k \<noteq> j \<Longrightarrow> collide_at now xs (i, j) ! k = xs ! k"
  by (simp add: collide_at_def case_prod_unfold)

lemma collide_at_miss: "\<not> in_contact (xs ! i) (xs ! j) \<Longrightarrow> collide_at now xs (i, j) = xs"
  by (simp add: collide_at_def collide_miss)

lemma no_contact_foldl:
  "no_contact now k xs ps \<Longrightarrow> foldl (collide_at now) xs ps ! k = xs ! k"
proof (induction ps arbitrary: xs)
  case Nil
  show ?case by simp
next
  case (Cons ij ps)
  obtain i j where ij: "ij = (i, j)" by (cases ij)
  from Cons.prems have here: "k = i \<or> k = j \<longrightarrow> \<not> in_contact (xs ! i) (xs ! j)"
    and later: "no_contact now k (collide_at now xs (i, j)) ps"
    by (simp_all add: ij)
  have same: "collide_at now xs (i, j) ! k = xs ! k"
  proof (cases "k = i \<or> k = j")
    case True
    with here show ?thesis by (simp add: collide_at_miss)
  next
    case False
    then show ?thesis by (simp add: collide_at_other)
  qed
  have "foldl (collide_at now) (collide_at now xs (i, j)) ps ! k = collide_at now xs (i, j) ! k"
    using later by (rule Cons.IH)
  then show ?case by (simp add: ij same)
qed

subsection \<open>Weapon decay leaves every robot where it is\<close>

lemma decay_step_position:
  "position (fst (decay_step rnd s i) ! k) = position (fst s ! k)"
proof -
  obtain xs n where s: "s = (xs, n)" by (cases s)
  show ?thesis
    by (cases "i < length xs"; cases "k = i")
      (simp_all add: s decay_step_def list_update_beyond)
qed

lemma decay_foldl_position:
  "position (fst (foldl (decay_step rnd) s is) ! k) = position (fst s ! k)"
  by (induction "is" arbitrary: s) (simp_all add: decay_step_position)

lemma decay_position: "position (fst (decay rnd n xs) ! k) = position (xs ! k)"
  unfolding decay_def using decay_foldl_position [of rnd "(xs, n)" "[0..<length xs]" k] by simp

text \<open>
  Claim C9, as amended. Take a robot with zero velocity to which the steering of this frame
  adds no thrust (it is dead, or stunned, or it is the player with neither thrust control
  held), on which no wall clamp applies, and which is in contact with no robot whenever
  the collision pass examines a pair with it. Whatever the match state, the frame leaves
  its position unchanged.
\<close>

theorem stationary_robot_stays:
  assumes "k < length rs" and "velocity (rs ! k) = vec 0 0 0" and "no_thrust now keys (rs ! k)"
    and "\<not> wall_clamp_applies (rs ! k)" and "untouched now keys rnd rs k"
  shows "position (snd (tick now keys rnd (gs, rs)) ! k) = position (rs ! k)"
proof -
  have body: "position (frame_body now keys rnd pidx rs ! k) = position (rs ! k)"
    if p: "findIndex isPlayer rs = Some pidx" for pidx
  proof -
    obtain rs1 n1 where m: "movement now keys rnd pidx rs = (rs1, n1)"
      by (cases "movement now keys rnd pidx rs")
    obtain n q where "fst (movement now keys rnd pidx rs) ! k
        = fst (move_bot now keys rnd n q (rs ! k))"
      using movement_nth [OF assms(1)] by blast
    then have a: "position (rs1 ! k) = position (rs ! k)"
      using move_bot_still [OF assms(2,3,4)] by (simp add: m)
    have len: "length rs1 = length rs"
      using length_movement [of now keys rnd pidx rs] by (simp add: m)
    have "no_contact now k rs1 (pairs (length rs1))"
      using assms(5) by (simp add: untouched_def p m len)
    then have b: "collisions now rs1 ! k = rs1 ! k"
      unfolding collisions_def by (rule no_contact_foldl)
    show ?thesis
      by (simp add: frame_body_def m decay_position a b)
  qed
  show ?thesis
    by (simp add: tick_def body split: option.splits)
qed

subsection \<open>Frames of two robots\<close>

lemma movement_two:
  "fst (movement now keys rnd 0 [a, b]) =
     [fst (move_bot now keys rnd 0 (position a) a),
      fst (move_bot now keys rnd (snd (move_bot now keys rnd 0 (position a) a))
             (position (fst (move_bot now keys rnd 0 (position a) a))) b)]"
proof -
  have u: "[0..<length [a, b]] = [0, Suc 0]"
    by (simp add: upt_rec)
  show ?thesis
    unfolding movement_def u by (simp add: movement_step_def case_prod_unfold)
qed

lemma pairs_two: "pairs (Suc (Suc 0)) = [(0, Suc 0)]"
  by (simp add: pairs_def)

lemma move_bot_isDead:
  "\<not> isDead b \<Longrightarrow>
   isDead (fst (move_bot now keys rnd n p b)) = out_of_bounds (fst (move_bot now keys rnd n p b))"
  by (simp add: move_bot_alive out_of_bounds_def)

lemma no_keys_pressed [simp]: "\<not> pressed no_keys k"
  by (simp add: pressed_def no_keys_def)

lemma distance_on_z: "distanceTo (vec 0 0 0) (vec 0 0 c) = \<bar>c\<bar>"
  by (simp add: distanceTo_def distanceToSquared_def)

lemma player_at_rest:
  "position (fst (move_bot now no_keys rnd n p (robot_at True ty (vec 0 0 0) rot h a))) = vec 0 0 0"
  "\<not> isDead (fst (move_bot now no_keys rnd n p (robot_at True ty (vec 0 0 0) rot h a)))"
proof -
  define pl where "pl = robot_at True ty (vec 0 0 0) rot h a"
  have p: "position (fst (move_bot now no_keys rnd n p pl)) = position pl"
    by (rule move_bot_still)
      (simp_all add: pl_def no_thrust_def wall_clamp_applies_def arena_numbers)
  then show "position (fst (move_bot now no_keys rnd n p (robot_at True ty (vec 0 0 0) rot h a))) = vec 0 0 0"
    by (simp add: pl_def)
  have "\<not> isDead pl" by (simp add: pl_def)
  then have "isDead (fst (move_bot now no_keys rnd n p pl)) = out_of_bounds (fst (move_bot now no_keys rnd n p pl))"
    by (rule move_bot_isDead)
  then show "\<not> isDead (fst (move_bot now no_keys rnd n p (robot_at True ty (vec 0 0 0) rot h a)))"
    using p by (simp add: pl_def out_of_bounds_def arena_numbers)
qed

text \<open>The tank of \<open>facing_scene\<close> in the movement pass: it thrusts toward the player.\<close>

lemma facing_tank_moves:
  "position (fst (move_bot 1 no_keys rnd n (vec 0 0 0) (robot_at False tank (vec 0 0 (- 2)) 0 100 False)))
     = vec 0 0 (- (1248 / 625))"
  "\<not> isDead (fst (move_bot 1 no_keys rnd n (vec 0 0 0) (robot_at False tank (vec 0 0 (- 2)) 0 100 False)))"
proof -
  define t where "t = robot_at False tank (vec 0 0 (- 2)) 0 100 False"
  define s where "s = fst (steering 1 no_keys rnd n (vec 0 0 0) t)"
  have st: "s = fst (ai_steer rnd n (vec 0 0 0) t)"
    by (simp add: s_def t_def steering_ai)
  have d: "angle_diff (vec 0 0 0) t = 0"
    unfolding angle_diff_def t_def using wrap_id [of 0] by (simp add: angleToPlayer_ahead)
  have rot: "rotation s = 0"
    unfolding st ai_steer_rotation d by (simp add: t_def)
  have "velocity s =
      add_v (velocity t) (multiplyScalar (vec (sin (rotation s)) 0 (cos (rotation s)))
        (MOVE_SPEED * ENEMY_SPEED_MULT))"
    unfolding st by (subst ai_steer_velocity) (simp add: d)
  then have vel: "velocity s = vec 0 0 (2 / 625)"
    unfolding rot by (simp add: t_def vec_eq_iff MOVE_SPEED_def ENEMY_SPEED_MULT_def)
  have pos: "position s = vec 0 0 (- 2)"
    by (simp add: s_def t_def)
  have pi: "position (integrate s) = vec 0 0 (- (1248 / 625))"
    by (simp add: vel pos vec_eq_iff)
  have nc: "\<not> wall_clamp_applies (integrate s)"
    unfolding wall_clamp_applies_def pi by (simp add: arena_numbers)
  have pw: "position (walls (integrate s)) = vec 0 0 (- (1248 / 625))"
    using walls_no_clamp [OF nc] pi by simp
  have alive: "\<not> isDead t" by (simp add: t_def)
  have m: "fst (move_bot 1 no_keys rnd n (vec 0 0 0) t) = pit (walls (integrate s))"
    unfolding s_def using alive by (rule move_bot_alive)
  show "position (fst (move_bot 1 no_keys rnd n (vec 0 0 0) (robot_at False tank (vec 0 0 (- 2)) 0 100 False)))
     = vec 0 0 (- (1248 / 625))"
    using m pw by (simp add: t_def)
  have "\<not> out_of_bounds (walls (integrate s))"
    unfolding out_of_bounds_def pw by (simp add: arena_numbers)
  then show "\<not> isDead (fst (move_bot 1 no_keys rnd n (vec 0 0 0) (robot_at False tank (vec 0 0 (- 2)) 0 100 False)))"
    using m alive by (simp add: t_def s_def)
qed

lemma facing_scene_movement:
  "position (fst (movement 1 no_keys no_draw 0 facing_scene) ! 0) = vec 0 0 0"
  "\<not> isDead (fst (movement 1 no_keys no_draw 0 facing_scene) ! 0)"
  "position (fst (movement 1 no_keys no_draw 0 facing_scene) ! 1) = vec 0 0 (- (1248 / 625))"
  "\<not> isDead (fst (movement 1 no_keys no_draw 0 facing_scene) ! 1)"
  unfolding facing_scene_def movement_two
  by (simp_all add: player_at_rest facing_tank_moves)

lemma facing_scene_untouched: "untouched 1 no_keys no_draw facing_scene k"
proof -
  have f: "findIndex isPlayer facing_scene = Some 0"
    by (simp add: facing_scene_def)
  have l: "length facing_scene = Suc (Suc 0)"
    by (simp add: facing_scene_def)
  have "\<not> in_contact (fst (movement 1 no_keys no_draw 0 facing_scene) ! 0)
                       (fst (movement 1 no_keys no_draw 0 facing_scene) ! Suc 0)"
    using facing_scene_movement
    by (simp add: in_contact_def distance_on_z arena_numbers)
  then show ?thesis
    by (simp add: untouched_def f l pairs_two)
qed

lemma facing_scene_frame:
  "position (snd (tick 1 no_keys no_draw (PLAYING, facing_scene)) ! 1) = vec 0 0 (- (1248 / 625))"
proof -
  have f: "findIndex isPlayer facing_scene = Some 0" "\<not> isDead (facing_scene ! 0)"
    "\<exists>r\<in>set facing_scene. \<not> isPlayer r \<and> \<not> isDead r"
    by (simp_all add: facing_scene_def)
  obtain rs1 n1 where m: "movement 1 no_keys no_draw 0 facing_scene = (rs1, n1)"
    by (cases "movement 1 no_keys no_draw 0 facing_scene")
  have len: "length rs1 = length facing_scene"
    using length_movement [of 1 no_keys no_draw 0 facing_scene] by (simp add: m)
  have "no_contact 1 1 rs1 (pairs (length rs1))"
    using facing_scene_untouched [of 1] by (simp add: untouched_def f m len)
  then have c: "collisions 1 rs1 ! 1 = rs1 ! 1"
    unfolding collisions_def by (rule no_contact_foldl)
  have "position (frame_body 1 no_keys no_draw 0 facing_scene ! 1) = position (rs1 ! 1)"
    unfolding frame_body_def m by (simp only: prod.case decay_position c)
  then show ?thesis
    using facing_scene_movement(3) by (simp add: tick_running [OF f] m)
qed

text \<open>
  The claim as first stated fails for a robot the AI steers. In \<open>facing_scene\<close> no key is
  held, the tank has zero velocity, is out of contact with the player before the frame and
  when the collision pass examines the pair, and is far from every wall; it faces the
  player, so the frame adds the AI thrust to its velocity and moves it.
\<close>

theorem ai_thrust_counterexample:
  "velocity (facing_scene ! 1) = vec 0 0 0 \<and>
   \<not> isPlayer (facing_scene ! 1) \<and>
   \<not> pressed no_keys ''ArrowUp'' \<and> \<not> pressed no_keys ''ArrowDown'' \<and>
   \<not> pressed no_keys ''ArrowLeft'' \<and> \<not> pressed no_keys ''ArrowRight'' \<and>
   \<not> pressed no_keys ''KeyW'' \<and> \<not> pressed no_keys ''KeyS'' \<and>
   \<not> pressed no_keys ''KeyA'' \<and> \<not> pressed no_keys ''KeyD'' \<and>
   \<not> pressed no_keys ''Space'' \<and>
   \<not> in_contact (facing_scene ! 0) (facing_scene ! 1) \<and>
   untouched 1 no_keys no_draw facing_scene 1 \<and>
   \<not> wall_clamp_applies (facing_scene ! 1) \<and>
   position (facing_scene ! 1) = vec 0 0 (- 2) \<and>
   position (snd (tick 1 no_keys no_draw (PLAYING, facing_scene)) ! 1) = vec 0 0 (- (1248 / 625)) \<and>
   position (snd (tick 1 no_keys no_draw (PLAYING, facing_scene)) ! 1) \<noteq> position (facing_scene ! 1)"
proof -
  have a: "velocity (facing_scene ! 1) = vec 0 0 0 \<and> \<not> isPlayer (facing_scene ! 1) \<and>
           position (facing_scene ! 1) = vec 0 0 (- 2)"
    by (simp add: facing_scene_def)
  have b: "\<not> in_contact (facing_scene ! 0) (facing_scene ! 1)"
    by (simp add: facing_scene_def in_contact_def distance_on_z arena_numbers)
  have c: "\<not> wall_clamp_applies (facing_scene ! 1)"
    by (simp add: facing_scene_def wall_clamp_applies_def arena_numbers)
  have d: "vec 0 0 (- (1248 / 625)) \<noteq> vec 0 0 (- 2)"
    by (simp add: vec_eq_iff)
  show ?thesis
    using a b c d facing_scene_untouched [of 1] facing_scene_frame by simp
qed

lemma move_bot_rest_alive:
  assumes "velocity b = vec 0 0 0" and "no_thrust now keys b" and "\<not> wall_clamp_applies b"
    and "\<not> isDead b" and "\<not> out_of_bounds b"
  shows "\<not> isDead (fst (move_bot now keys rnd n p b))"
proof -
  have p: "position (fst (move_bot now keys rnd n p b)) = position b"
    using assms(1,2,3) by (rule move_bot_still)
  have "isDead (fst (move_bot now keys rnd n p b)) = out_of_bounds (fst (move_bot now keys rnd n p b))"
    using assms(4) by (rule move_bot_isDead)
  then show ?thesis
    using assms(5) p by (simp add: out_of_bounds_def)
qed

lemma stunned_scene_movement:
  "position (fst (movement 1 no_keys no_draw 0 stunned_scene) ! 0) = vec 0 0 0"
  "\<not> isDead (fst (movement 1 no_keys no_draw 0 stunned_scene) ! 0)"
  "position (fst (movement 1 no_keys no_draw 0 stunned_scene) ! 1) = vec 0 0 (- 2)"
  "\<not> isDead (fst (movement 1 no_keys no_draw 0 stunned_scene) ! 1)"
proof -
  define t where "t = (robot_at False tank (vec 0 0 (- 2)) 0 100 False)\<lparr>stunnedUntil := 5\<rparr>"
  have v: "velocity t = vec 0 0 0" and nt: "no_thrust 1 no_keys t"
    and nc: "\<not> wall_clamp_applies t" and al: "\<not> isDead t" and ib: "\<not> out_of_bounds t"
    by (simp_all add: t_def no_thrust_def wall_clamp_applies_def out_of_bounds_def arena_numbers)
  have p: "position (fst (move_bot 1 no_keys no_draw n q t)) = vec 0 0 (- 2)" for n q
    using move_bot_still [OF v nt nc, of no_draw n q] by (simp add: t_def)
  have a: "\<not> isDead (fst (move_bot 1 no_keys no_draw n q t))" for n q
    using v nt nc al ib by (rule move_bot_rest_alive)
  show "position (fst (movement 1 no_keys no_draw 0 stunned_scene) ! 0) = vec 0 0 0"
    "\<not> isDead (fst (movement 1 no_keys no_draw 0 stunned_scene) ! 0)"
    "position (fst (movement 1 no_keys no_draw 0 stunned_scene) ! 1) = vec 0 0 (- 2)"
    "\<not> isDead (fst (movement 1 no_keys no_draw 0 stunned_scene) ! 1)"
    unfolding stunned_scene_def movement_two t_def [symmetric]
    by (simp_all add: player_at_rest p a)
qed

theorem stationary_robot_stays_witness:
  "(1::nat) < length stunned_scene \<and>
   velocity (stunned_scene ! 1) = vec 0 0 0 \<and>
   no_thrust 1 no_keys (stunned_scene ! 1) \<and>
   \<not> wall_clamp_applies (stunned_scene ! 1) \<and>
   untouched 1 no_keys no_draw stunned_scene 1 \<and>
   position (stunned_scene ! 1) = vec 0 0 (- 2) \<and>
   position (snd (tick 1 no_keys no_draw (PLAYING, stunned_scene)) ! 1) = vec 0 0 (- 2)"
proof -
  have l: "(1::nat) < length stunned_scene"
    and v: "velocity (stunned_scene ! 1) = vec 0 0 0"
    and nt: "no_thrust 1 no_keys (stunned_scene ! 1)"
    and nc: "\<not> wall_clamp_applies (stunned_scene ! 1)"
    and p: "position (stunned_scene ! 1) = vec 0 0 (- 2)"
    by (simp_all add: stunned_scene_def no_thrust_def wall_clamp_applies_def arena_numbers)
  have f: "findIndex isPlayer stunned_scene = Some 0" "length stunned_scene = Suc (Suc 0)"
    by (simp_all add: stunned_scene_def)
  have "\<not> in_contact (fst (movement 1 no_keys no_draw 0 stunned_scene) ! 0)
                       (fst (movement 1 no_keys no_draw 0 stunned_scene) ! Suc 0)"
    using stunned_scene_movement
    by (simp add: in_contact_def distance_on_z arena_numbers)
  then have u: "untouched 1 no_keys no_draw stunned_scene 1"
    by (simp add: untouched_def f pairs_two)
  show ?thesis
    using l v nt nc u p stationary_robot_stays [OF l v nt nc u, of PLAYING]
    by simp
qed

end
